theory Spec2Isabelle
  imports Main "HOL-Library.Monad_Syntax"
begin

section \<open>Python strings\<close>

text \<open>
  A Python \<open>str\<close> is modelled as a \<open>string\<close>, one \<open>char\<close> per code point; the
  embedding covers the code points below 256 (ASCII and Latin-1).  The predicates below
  are Python's \<open>str.isspace\<close>, \<open>str.isupper\<close>, \<open>str.islower\<close> and \<open>str.lower\<close> on a
  single character of that range, as the Unicode database defines them.
\<close>

definition py_isspace :: "char \<Rightarrow> bool" where
  "py_isspace c = (let n = (of_char c :: nat) in
     (9 \<le> n \<and> n \<le> 13) \<or> (28 \<le> n \<and> n \<le> 32) \<or> n = 133 \<or> n = 160)"

definition py_isupper_char :: "char \<Rightarrow> bool" where
  "py_isupper_char c = (let n = (of_char c :: nat) in
     (65 \<le> n \<and> n \<le> 90) \<or> (192 \<le> n \<and> n \<le> 214) \<or> (216 \<le> n \<and> n \<le> 222))"

definition py_islower_char :: "char \<Rightarrow> bool" where
  "py_islower_char c = (let n = (of_char c :: nat) in
     (97 \<le> n \<and> n \<le> 122) \<or> n = 170 \<or> n = 181 \<or> n = 186 \<or>
     (223 \<le> n \<and> n \<le> 246) \<or> (248 \<le> n \<and> n \<le> 255))"

definition py_iscased :: "char \<Rightarrow> bool" where
  "py_iscased c = (py_isupper_char c \<or> py_islower_char c)"

definition py_lower_char :: "char \<Rightarrow> char" where
  "py_lower_char c = (if py_isupper_char c then char_of (of_char c + (32::nat)) else c)"

text \<open>
  The upper-case (and title-case) image of a lower-case character.  Three lower-case
  characters of the range have their image outside it (U+00B5, U+00DF, U+00FF); they are
  left as they are, and no caller in this program reaches them: \<open>str.title\<close> is applied
  to lines without lower-case characters only.
\<close>

definition py_upper_char :: "char \<Rightarrow> char" where
  "py_upper_char c = (let n = (of_char c :: nat) in
     if (97 \<le> n \<and> n \<le> 122) \<or> (224 \<le> n \<and> n \<le> 246) \<or> (248 \<le> n \<and> n \<le> 254)
     then char_of (n - 32) else c)"

definition py_lower :: "string \<Rightarrow> string" where
  "py_lower s = map py_lower_char s"

text \<open>\<open>s.strip()\<close> and \<open>s.strip(chars)\<close>.\<close>

definition py_strip :: "string \<Rightarrow> string" where
  "py_strip s = rev (dropWhile py_isspace (rev (dropWhile py_isspace s)))"

definition py_strip_chars :: "string \<Rightarrow> string \<Rightarrow> string" where
  "py_strip_chars cs s =
     rev (dropWhile (\<lambda>c. c \<in> set cs) (rev (dropWhile (\<lambda>c. c \<in> set cs) s)))"

text \<open>
  \<open>s.split()\<close>: the maximal runs of non-whitespace characters, in order.  The second
  argument is the run read so far, reversed.
\<close>

fun split_ws :: "string \<Rightarrow> string \<Rightarrow> string list" where
  "split_ws [] cur = (if cur = [] then [] else [rev cur])"
| "split_ws (c # cs) cur =
     (if py_isspace c then (if cur = [] then split_ws cs [] else rev cur # split_ws cs [])
      else split_ws cs (c # cur))"

definition py_split :: "string \<Rightarrow> string list" where
  "py_split s = split_ws s []"

text \<open>\<open>s.split(sep)\<close> for a separator of one character: empty pieces are kept.\<close>

fun split_on :: "char \<Rightarrow> string \<Rightarrow> string \<Rightarrow> string list" where
  "split_on sep [] cur = [rev cur]"
| "split_on sep (c # cs) cur =
     (if c = sep then rev cur # split_on sep cs [] else split_on sep cs (c # cur))"

definition py_split_sep :: "char \<Rightarrow> string \<Rightarrow> string list" where
  "py_split_sep sep s = split_on sep s []"

fun py_join :: "string \<Rightarrow> string list \<Rightarrow> string" where
  "py_join sep [] = []"
| "py_join sep [x] = x"
| "py_join sep (x # y # ys) = x @ sep @ py_join sep (y # ys)"

definition py_startswith :: "string \<Rightarrow> string \<Rightarrow> bool" where
  "py_startswith s p = (take (length p) s = p)"

text \<open>
  \<open>s.isupper()\<close>: no lower-case character and at least one upper-case one.
  \<open>s.title()\<close>: a cased character that follows a cased character is lowered, any other
  one is put in title case.
\<close>

definition py_isupper :: "string \<Rightarrow> bool" where
  "py_isupper s = (list_ex py_isupper_char s \<and> \<not> list_ex py_islower_char s)"

fun title_from :: "bool \<Rightarrow> string \<Rightarrow> string" where
  "title_from prev_cased [] = []"
| "title_from prev_cased (c # cs) =
     (if prev_cased then py_lower_char c else py_upper_char c) # title_from (py_iscased c) cs"

definition py_title :: "string \<Rightarrow> string" where
  "py_title s = title_from False s"

section \<open>Regular expressions\<close>

text \<open>
  The fragment of Python's \<open>re\<close> syntax that the program uses: literals, \<open>.\<close>, character
  sets with ranges and \<open>\s\<close>, \<open>^\<close> and \<open>$\<close>, concatenation, alternation, one capturing
  group, and \<open>*\<close>, \<open>+\<close>, \<open>+?\<close> applied to a single-character atom.
\<close>

datatype citem = One char | Range char char | Space

datatype atom = Lit char | Dot | In "citem list" | NotIn "citem list"

datatype regex =
    Atom atom
  | Bol
  | Eol
  | Seq regex regex
  | Alt regex regex
  | Group regex
  | Star atom
  | Plus atom
  | LazyPlus atom

record flags =
  multiline :: bool
  ignorecase :: bool

text \<open>A literal string is the sequence of its characters; the empty one is not used.\<close>

fun lits :: "string \<Rightarrow> regex" where
  "lits [] = Star (In [])"
| "lits [c] = Atom (Lit c)"
| "lits (c # d # cs) = Seq (Atom (Lit c)) (lits (d # cs))"

fun seqs :: "regex list \<Rightarrow> regex" where
  "seqs [] = Star (In [])"
| "seqs [r] = r"
| "seqs (r # q # rs) = Seq r (seqs (q # rs))"

fun alts :: "regex list \<Rightarrow> regex" where
  "alts [] = Atom (In [])"
| "alts [r] = r"
| "alts (r # q # rs) = Alt r (alts (q # rs))"

text \<open>
  Membership of a character in a set item.  Under \<open>IGNORECASE\<close> the compiler lowers the
  characters of a set and the matcher lowers the character it reads.
\<close>

fun item_has :: "bool \<Rightarrow> citem \<Rightarrow> char \<Rightarrow> bool" where
  "item_has ic (One a) c = (if ic then py_lower_char c = py_lower_char a else c = a)"
| "item_has ic (Range a b) c =
     (if ic then list_ex (\<lambda>n. py_lower_char (char_of n) = py_lower_char c)
                   [of_char a ..< Suc (of_char b)]
      else (of_char a :: nat) \<le> of_char c \<and> (of_char c :: nat) \<le> of_char b)"
| "item_has ic Space c = py_isspace c"

fun atom_ok :: "flags \<Rightarrow> atom \<Rightarrow> char \<Rightarrow> bool" where
  "atom_ok f (Lit a) c = (if ignorecase f then py_lower_char c = py_lower_char a else c = a)"
| "atom_ok f Dot c = (c \<noteq> CHR 0x0A)"
| "atom_ok f (In items) c = list_ex (\<lambda>i. item_has (ignorecase f) i c) items"
| "atom_ok f (NotIn items) c = (\<not> list_ex (\<lambda>i. item_has (ignorecase f) i c) items)"

text \<open>
  A matcher state is the character before the current position (none at the start of
  the text), the text from the current position on, and what group 1 has captured.
  \<open>matches\<close> lists the states in which a match of the expression may end, in the order
  in which the backtracking matcher tries them: the first one is the match it reports.
\<close>

type_synonym mstate = "char option \<times> string \<times> string option"

fun greedy :: "(char \<Rightarrow> bool) \<Rightarrow> char option \<Rightarrow> string \<Rightarrow> (char option \<times> string) list" where
  "greedy p pv [] = [(pv, [])]"
| "greedy p pv (c # cs) = (if p c then greedy p (Some c) cs else []) @ [(pv, c # cs)]"

fun lazy :: "(char \<Rightarrow> bool) \<Rightarrow> char option \<Rightarrow> string \<Rightarrow> (char option \<times> string) list" where
  "lazy p pv [] = [(pv, [])]"
| "lazy p pv (c # cs) = (pv, c # cs) # (if p c then lazy p (Some c) cs else [])"

fun matches :: "flags \<Rightarrow> regex \<Rightarrow> mstate \<Rightarrow> mstate list" where
  "matches f (Atom a) (pv, s, g) =
     (case s of [] \<Rightarrow> [] | c # cs \<Rightarrow> if atom_ok f a c then [(Some c, cs, g)] else [])"
| "matches f Bol (pv, s, g) =
     (if pv = None \<or> (multiline f \<and> pv = Some (CHR 0x0A)) then [(pv, s, g)] else [])"
| "matches f Eol (pv, s, g) =
     (if s = [] \<or> (multiline f \<and> take 1 s = [CHR 0x0A]) \<or> s = [CHR 0x0A]
      then [(pv, s, g)] else [])"
| "matches f (Seq a b) st = concat (map (matches f b) (matches f a st))"
| "matches f (Alt a b) st = matches f a st @ matches f b st"
| "matches f (Group r) (pv, s, g) =
     map (\<lambda>(pv', s', g'). (pv', s', Some (take (length s - length s') s)))
       (matches f r (pv, s, g))"
| "matches f (Star a) (pv, s, g) =
     map (\<lambda>(pv', s'). (pv', s', g)) (greedy (atom_ok f a) pv s)"
| "matches f (Plus a) (pv, s, g) =
     (case s of [] \<Rightarrow> []
      | c # cs \<Rightarrow> if atom_ok f a c
                 then map (\<lambda>(pv', s'). (pv', s', g)) (greedy (atom_ok f a) (Some c) cs)
                 else [])"
| "matches f (LazyPlus a) (pv, s, g) =
     (case s of [] \<Rightarrow> []
      | c # cs \<Rightarrow> if atom_ok f a c
                 then map (\<lambda>(pv', s'). (pv', s', g)) (lazy (atom_ok f a) (Some c) cs)
                 else [])"

text \<open>
  \<open>re.search\<close>: the leftmost position at which the expression matches.  The result is
  the text skipped before the match and the state at the end of the match.
\<close>

fun re_search :: "flags \<Rightarrow> regex \<Rightarrow> char option \<Rightarrow> string \<Rightarrow> (string \<times> mstate) option" where
  "re_search f r pv [] =
     (case matches f r (pv, [], None) of [] \<Rightarrow> None | m # ms \<Rightarrow> Some ([], m))"
| "re_search f r pv (c # cs) =
     (case matches f r (pv, c # cs, None) of
        m # ms \<Rightarrow> Some ([], m)
      | [] \<Rightarrow> map_option (\<lambda>(pre, m). (c # pre, m)) (re_search f r (Some c) cs))"

text \<open>\<open>match.group(1)\<close>: \<open>None\<close> when the group took no part in the match.\<close>

definition group1 :: "string \<times> mstate \<Rightarrow> string option" where
  "group1 m = snd (snd (snd m))"

definition rest_of :: "string \<times> mstate \<Rightarrow> string" where
  "rest_of m = fst (snd (snd m))"

definition prev_of :: "string \<times> mstate \<Rightarrow> char option" where
  "prev_of m = fst (snd m)"

text \<open>
  \<open>re.sub(pattern, repl, s)\<close> and \<open>re.split(pattern, s)\<close>, for a replacement without
  group references.  Each match found is replaced (or cut out) and the search goes on
  after it.  Every expression the program passes to them consumes at least one
  character; a match that consumes nothing ends the scan here.
\<close>

function re_sub :: "flags \<Rightarrow> regex \<Rightarrow> string \<Rightarrow> char option \<Rightarrow> string \<Rightarrow> string" where
  "re_sub f r repl pv s =
     (case re_search f r pv s of
        None \<Rightarrow> s
      | Some m \<Rightarrow>
          if length (rest_of m) < length s
          then fst m @ repl @ re_sub f r repl (prev_of m) (rest_of m)
          else s)"
  by pat_completeness auto
termination
  by (relation "measure (\<lambda>(f, r, repl, pv, s). length s)") auto

function re_split :: "flags \<Rightarrow> regex \<Rightarrow> char option \<Rightarrow> string \<Rightarrow> string list" where
  "re_split f r pv s =
     (case re_search f r pv s of
        None \<Rightarrow> [s]
      | Some m \<Rightarrow>
          if length (rest_of m) < length s
          then fst m # re_split f r (prev_of m) (rest_of m)
          else [s])"
  by pat_completeness auto
termination
  by (relation "measure (\<lambda>(f, r, pv, s). length s)") auto

declare re_sub.simps [simp del] re_split.simps [simp del]

section \<open>The slug generator\<close>

text \<open>
  \<open>DatabaseManager.generate_slug\<close> (database/connection.py): lower the title, delete
  \<open>[^a-z0-9\s-]\<close>, replace each run \<open>[\s-]+\<close> by one hyphen, strip hyphens at both
  ends, keep the first 100 characters.
\<close>

definition no_flags :: flags where
  "no_flags = \<lparr>multiline = False, ignorecase = False\<rparr>"

definition generate_slug :: "string \<Rightarrow> string" where
  "generate_slug title =
     (let slug = py_lower title;
          slug = re_sub no_flags
                   (Atom (NotIn [Range CHR ''a'' CHR ''z'', Range CHR ''0'' CHR ''9'', Space,
                                 One CHR ''-'']))
                   [] None slug;
          slug = re_sub no_flags (Plus (In [Space, One CHR ''-''])) ''-'' None slug;
          slug = py_strip_chars ''-'' slug
      in take 100 slug)"

section \<open>Exceptions of the run-time\<close>

text \<open>
  Both routines of the extractor wrap their body in \<open>try: ... except Exception\<close>.
  Python may raise at any statement (a \<open>MemoryError\<close>, a \<open>RecursionError\<close> inside the
  regex engine, ...), so the bodies are written in the option monad, \<open>None\<close> standing for
  a raised exception, and the parameter \<open>raises\<close> says at which numbered statement of a
  try block, if any, the run-time raises.  \<open>no_raise\<close> is the run without such an event.
\<close>

definition stmt :: "(nat \<Rightarrow> bool) \<Rightarrow> nat \<Rightarrow> 'a option \<Rightarrow> 'a option" where
  "stmt raises k v = (if raises k then None else v)"

definition no_raise :: "nat \<Rightarrow> bool" where
  "no_raise k = False"

section \<open>The markdown normalizer\<close>

text \<open>
  \<open>EnhancedBlogGenerator.ensure_proper_markdown\<close> (blog_generator.py).  One line of the
  loop: the line is stripped first, then classified.
\<close>

definition process_line :: "string \<Rightarrow> string" where
  "process_line line0 =
     (let line = py_strip line0 in
      if line = [] then []
      else if py_startswith line ''# '' \<and> \<not> py_startswith line ''## '' then line
      else if py_startswith line ''##'' \<or> py_startswith line ''###'' then line
      else if py_isupper line \<and> length (py_split line) \<le> 5 then ''## '' @ py_title line
      else line)"

definition ensure_try :: "(nat \<Rightarrow> bool) \<Rightarrow> string \<Rightarrow> string option" where
  "ensure_try raises content0 = do {
     lines \<leftarrow> stmt raises 10 (Some (py_split_sep (CHR 0x0A) content0));
     processed_lines \<leftarrow> stmt raises 11 (Some (map process_line lines));
     stmt raises 12 (Some (py_join [CHR 0x0A] processed_lines))
   }"

definition ensure_proper_markdown :: "(nat \<Rightarrow> bool) \<Rightarrow> string \<Rightarrow> string" where
  "ensure_proper_markdown raises content0 =
     (case ensure_try raises content0 of Some r \<Rightarrow> r | None \<Rightarrow> content0)"

section \<open>The output extractor\<close>

text \<open>The dictionary that \<open>extract_blog_components\<close> returns.\<close>

record blog_components =
  title :: string
  content :: string
  tags :: "string list"
  word_count :: nat
  meta_description :: "string option"

definition fl_m :: flags where
  "fl_m = \<lparr>multiline = True, ignorecase = False\<rparr>"

definition fl_mi :: flags where
  "fl_mi = \<lparr>multiline = True, ignorecase = True\<rparr>"

definition fl_i :: flags where
  "fl_i = \<lparr>multiline = False, ignorecase = True\<rparr>"

text \<open>The tail \<open>(.+?)(?:\n|$)\<close> that most of the patterns share, and its group-free form.\<close>

definition line_end :: regex where
  "line_end = Alt (Atom (Lit (CHR 0x0A))) Eol"

definition cap_line :: regex where
  "cap_line = Seq (Group (LazyPlus Dot)) line_end"

text \<open>\<open>^#\s+(.+?)(?:\n|$)\<close>\<close>

definition heading_pattern :: regex where
  "heading_pattern = seqs [Bol, Atom (Lit CHR ''#''), Plus (In [Space]), cap_line]"

text \<open>
  The fallback title patterns \<open>(?:Title|TITLE):\s*(.+?)(?:\n|$)\<close> and
  \<open>(?:^|\n)([A-Z][^.\n]+(?:AI|Technology|Intelligence|Machine Learning|Deep Learning)[^.\n]*)\<close>
\<close>

definition title_pattern_1 :: regex where
  "title_pattern_1 =
     seqs [Alt (lits ''Title'') (lits ''TITLE''), Atom (Lit CHR '':''), Star (In [Space]),
           cap_line]"

definition title_pattern_2 :: regex where
  "title_pattern_2 =
     Seq (Alt Bol (Atom (Lit (CHR 0x0A))))
       (Group (seqs [Atom (In [Range CHR ''A'' CHR ''Z'']),
                     Plus (NotIn [One CHR ''.'', One (CHR 0x0A)]),
                     alts [lits ''AI'', lits ''Technology'', lits ''Intelligence'',
                           lits ''Machine Learning'', lits ''Deep Learning''],
                     Star (NotIn [One CHR ''.'', One (CHR 0x0A)])]))"

definition title_patterns :: "regex list" where
  "title_patterns = [title_pattern_1, title_pattern_2]"

text \<open>
  The tag patterns \<open>\*\*Tags:\*\*\s*(.+?)(?:\n|$)\<close>,
  \<open>(?:Tags|TAGS|Keywords):\s*(.+?)(?:\n|$)\<close> and
  \<open>(?:Suggested tags|Relevant tags):\s*(.+?)(?:\n|$)\<close>
\<close>

definition tags_pattern_1 :: regex where
  "tags_pattern_1 = seqs [lits ''**Tags:**'', Star (In [Space]), cap_line]"

definition tags_pattern_2 :: regex where
  "tags_pattern_2 =
     seqs [alts [lits ''Tags'', lits ''TAGS'', lits ''Keywords''], Atom (Lit CHR '':''),
           Star (In [Space]), cap_line]"

definition tags_pattern_3 :: regex where
  "tags_pattern_3 =
     seqs [Alt (lits ''Suggested tags'') (lits ''Relevant tags''), Atom (Lit CHR '':''),
           Star (In [Space]), cap_line]"

definition tags_patterns :: "regex list" where
  "tags_patterns = [tags_pattern_1, tags_pattern_2, tags_pattern_3]"

text \<open>
  \<open>(?:Meta Description|meta description):\s*(.+?)(?:\n|$)\<close>, and the same without the
  group for \<open>re.sub\<close>.
\<close>

definition meta_pattern :: regex where
  "meta_pattern =
     seqs [Alt (lits ''Meta Description'') (lits ''meta description''), Atom (Lit CHR '':''),
           Star (In [Space]), cap_line]"

definition meta_line_pattern :: regex where
  "meta_line_pattern =
     seqs [Alt (lits ''Meta Description'') (lits ''meta description''), Atom (Lit CHR '':''),
           Star (In [Space]), LazyPlus Dot, line_end]"

text \<open>
  The loop \<open>for pattern in title_patterns\<close>: the first pattern that matches gives the
  title, and the default given stays when none does.  \<open>group(1).strip()\<close> raises when the group
  is \<open>None\<close>.
\<close>

fun first_title :: "regex list \<Rightarrow> string \<Rightarrow> string \<Rightarrow> string option" where
  "first_title [] content0 title0 = Some title0"
| "first_title (pattern # ps) content0 title0 =
     (case re_search fl_mi pattern None content0 of
        Some m \<Rightarrow> map_option py_strip (group1 m)
      | None \<Rightarrow> first_title ps content0 title0)"

definition extract_title :: "string \<Rightarrow> string option" where
  "extract_title content0 =
     (case re_search fl_m heading_pattern None content0 of
        Some title_match \<Rightarrow> map_option py_strip (group1 title_match)
      | None \<Rightarrow> first_title title_patterns content0 ''Latest Developments in Generative AI'')"

text \<open>
  The loop \<open>for pattern in tags_patterns\<close>: the first pattern that matches gives the
  tags (possibly none at all), and the list stays empty when no pattern matches.
\<close>

definition split_tags :: "string \<Rightarrow> string list" where
  "split_tags tags_text =
     (let tags0 = map (\<lambda>tag. py_strip (py_strip_chars '','' (py_strip tag)))
                    (re_split no_flags
                       (Atom (In [One CHR '','', One CHR '';'', One CHR ''|''])) None tags_text)
      in filter (\<lambda>tag. tag \<noteq> [] \<and> length tag > 1) tags0)"

fun first_tags :: "regex list \<Rightarrow> string \<Rightarrow> string list option" where
  "first_tags [] content0 = Some []"
| "first_tags (pattern # ps) content0 =
     (case re_search fl_mi pattern None content0 of
        Some m \<Rightarrow> map_option split_tags (group1 m)
      | None \<Rightarrow> first_tags ps content0)"

definition default_tags :: "string list" where
  "default_tags = [''Generative AI'', ''Artificial Intelligence'', ''Technology'',
                   ''Machine Learning'', ''Innovation'']"

definition extract_tags :: "string \<Rightarrow> string list option" where
  "extract_tags content0 = do {
     tags0 \<leftarrow> first_tags tags_patterns content0;
     Some (if tags0 = [] then default_tags else tags0)
   }"

definition extract_meta :: "string \<Rightarrow> string option option" where
  "extract_meta content0 =
     (case re_search fl_i meta_pattern None content0 of
        Some meta_desc_match \<Rightarrow> map_option (\<lambda>g. Some (py_strip g)) (group1 meta_desc_match)
      | None \<Rightarrow> Some None)"

definition remove_meta :: "string option \<Rightarrow> string \<Rightarrow> string" where
  "remove_meta meta content0 =
     (if meta \<noteq> None \<and> meta \<noteq> Some []
      then re_sub fl_i meta_line_pattern [] None content0 else content0)"

definition count_words :: "string \<Rightarrow> nat" where
  "count_words content0 =
     (let text_only = re_sub no_flags
                        (Atom (In [One CHR ''#'', One CHR ''*'', One (CHR 0x60), One CHR ''['',
                                   One CHR '']'', One CHR ''('', One CHR '')'']))
                        [] None content0
      in length (py_split text_only))"

definition extract_try :: "(nat \<Rightarrow> bool) \<Rightarrow> string \<Rightarrow> blog_components option" where
  "extract_try raises crew_output = do {
     content0 \<leftarrow> stmt raises 0 (Some (py_strip crew_output));
     title0 \<leftarrow> stmt raises 1 (extract_title content0);
     title1 \<leftarrow> stmt raises 2 (Some (py_strip_chars [CHR 0x22, CHR 0x27] title0));
     tags0 \<leftarrow> stmt raises 3 (extract_tags content0);
     meta \<leftarrow> stmt raises 4 (extract_meta content0);
     content1 \<leftarrow> stmt raises 5 (Some (remove_meta meta content0));
     content2 \<leftarrow> stmt raises 6 (Some (ensure_proper_markdown raises content1));
     wc \<leftarrow> stmt raises 7 (Some (count_words content2));
     stmt raises 8 (Some \<lparr>title = title1, content = content2, tags = take 7 tags0,
                           word_count = wc, meta_description = meta\<rparr>)
   }"

text \<open>The \<open>except\<close> branch: the fixed defaults around the raw text.\<close>

definition extract_fallback :: "string \<Rightarrow> blog_components" where
  "extract_fallback crew_output =
     \<lparr>title = ''Generated Blog Post on Generative AI'', content = crew_output,
      tags = [''Generative AI'', ''Technology''],
      word_count = length (py_split crew_output), meta_description = None\<rparr>"

definition extract_blog_components :: "(nat \<Rightarrow> bool) \<Rightarrow> string \<Rightarrow> blog_components" where
  "extract_blog_components raises crew_output =
     (case extract_try raises crew_output of
        Some r \<Rightarrow> r
      | None \<Rightarrow> extract_fallback crew_output)"

section \<open>Exceptions as values\<close>

datatype py_error =
  TypeError string | AttributeError string | SyntaxError string | OtherError string

fun str_of :: "py_error \<Rightarrow> string" where
  "str_of (TypeError m) = m"
| "str_of (AttributeError m) = m"
| "str_of (SyntaxError m) = m"
| "str_of (OtherError m) = m"

text \<open>\<open>str(n)\<close> for an integer.\<close>

fun str_nat :: "nat \<Rightarrow> string" where
  "str_nat n = (if n < 10 then [char_of (48 + n)]
                else str_nat (n div 10) @ [char_of (48 + n mod 10)])"

declare str_nat.simps [simp del]

definition str_int :: "int \<Rightarrow> string" where
  "str_int i = (if i < 0 then CHR ''-'' # str_nat (nat (- i)) else str_nat (nat i))"

section \<open>The topic selector\<close>

text \<open>\<open>EnhancedBlogGenerator.GENERATIVE_AI_TOPICS\<close>, the only topic pool of the class.\<close>

definition GENERATIVE_AI_TOPICS :: "string list" where
  "GENERATIVE_AI_TOPICS =
     [''Large Language Models (LLMs) and their latest developments'',
      ''Retrieval-Augmented Generation (RAG) systems and applications'',
      ''AI Agents and autonomous systems'',
      ''Multi-modal AI models combining text, image, and audio'',
      ''AI-powered chatbots and conversational interfaces'',
      ''AI image generation and computer vision breakthroughs'',
      ''AI video generation and synthetic media'',
      ''AI audio and music generation technologies'',
      ''AI code generation and programming assistants'',
      ''Prompt engineering and optimization techniques'',
      ''Fine-tuning and customization of AI models'',
      ''AI safety and alignment research'',
      ''Edge AI and on-device machine learning'',
      ''AI in creative industries and content creation'',
      ''Generative AI ethics and responsible AI development'',
      ''AI model compression and efficiency improvements'',
      ''Open-source vs proprietary AI models comparison'',
      ''AI-powered automation tools and workflows'',
      ''Generative AI in healthcare and medical applications'',
      ''AI in education and personalized learning systems'']"

definition trending_aspects :: "nat \<Rightarrow> string list" where
  "trending_aspects current_year =
     [''in '' @ str_nat current_year,
      ''latest trends and innovations'',
      ''breaking developments'',
      ''industry impact and future prospects'',
      ''practical applications and use cases'',
      ''challenges and opportunities ahead'']"

text \<open>
  \<open>random.choice(seq)\<close>: the element at the index the generator draws; the draw is a
  parameter.  An empty sequence raises \<open>IndexError\<close>.
\<close>

definition choice :: "'a list \<Rightarrow> nat \<Rightarrow> py_error + 'a" where
  "choice seq draw =
     (if seq = [] then Inl (OtherError ''Cannot choose from an empty sequence'')
      else Inr (seq ! (draw mod length seq)))"

text \<open>
  \<open>def generate_dynamic_topic(self) -> str\<close>.  The method has no parameter besides
  \<open>self\<close>: \<open>args\<close> are the further arguments of a call, and Python raises \<open>TypeError\<close>
  when there is one.
\<close>

definition generate_dynamic_topic :: "string list \<Rightarrow> nat \<Rightarrow> nat \<times> nat \<Rightarrow> py_error + string" where
  "generate_dynamic_topic args current_year draws =
     (if args \<noteq> []
      then Inl (TypeError ''generate_dynamic_topic() takes 1 positional argument'')
      else case choice GENERATIVE_AI_TOPICS (fst draws) of
             Inl e \<Rightarrow> Inl e
           | Inr base_topic \<Rightarrow>
               (case choice (trending_aspects current_year) (snd draws) of
                  Inl e \<Rightarrow> Inl e
                | Inr aspect \<Rightarrow> Inr (base_topic @ '' - '' @ aspect)))"

section \<open>The database manager\<close>

text \<open>
  The two tables behind Prisma, and \<open>DatabaseManager._connected\<close>.  Whether a Prisma
  call raises is decided outside the program: \<open>db_env\<close> says so for each kind of call.
\<close>

record generation_log =
  log_topic :: string
  log_status :: string
  errorMsg :: "string option"
  blogPostId :: "nat option"

record blog_post =
  bp_id :: nat
  bp_title :: string
  bp_content :: string
  bp_topic :: string
  bp_tags :: "string list"
  wordCount :: "nat option"
  metaDescription :: "string option"
  bp_slug :: string
  published :: bool

record database =
  connected :: bool
  posts :: "blog_post list"
  logs :: "generation_log list"

record db_env =
  connect_raises :: bool
  post_create_raises :: bool
  log_create_raises :: "string \<Rightarrow> bool"

definition connect :: "'x db_env_scheme \<Rightarrow> database \<Rightarrow> (py_error + unit) \<times> database" where
  "connect env db =
     (if \<not> connected db
      then (if connect_raises env then (Inl (OtherError ''connection failed''), db)
            else (Inr (), db\<lparr>connected := True\<rparr>))
      else (Inr (), db))"

definition create_blog_post ::
  "'x db_env_scheme \<Rightarrow> string \<Rightarrow> string \<Rightarrow> string \<Rightarrow> string list \<Rightarrow> nat option \<Rightarrow>
   string option \<Rightarrow> string option \<Rightarrow> database \<Rightarrow> blog_post option \<times> database" where
  "create_blog_post env title0 content0 topic tags0 word_count0 meta slug0 db =
     (case (if \<not> connected db then connect env db else (Inr (), db)) of
        (Inl e, db1) \<Rightarrow> (None, db1)
      | (Inr u, db1) \<Rightarrow>
          (let slug1 = (case slug0 of None \<Rightarrow> generate_slug title0
                        | Some sl \<Rightarrow> if sl = [] then generate_slug title0 else sl)
           in if post_create_raises env then (None, db1)
              else (let blog_post = \<lparr>bp_id = Suc (length (posts db1)), bp_title = title0,
                                       bp_content = content0, bp_topic = topic,
                                       bp_tags = tags0, wordCount = word_count0,
                                       metaDescription = meta, bp_slug = slug1,
                                       published = True\<rparr>
                    in (Some blog_post, db1\<lparr>posts := posts db1 @ [blog_post]\<rparr>))))"

definition log_generation_attempt ::
  "'x db_env_scheme \<Rightarrow> string \<Rightarrow> string \<Rightarrow> string option \<Rightarrow> nat option \<Rightarrow> database \<Rightarrow>
   generation_log option \<times> database" where
  "log_generation_attempt env topic status error_msg blog_post_id db =
     (case (if \<not> connected db then connect env db else (Inr (), db)) of
        (Inl e, db1) \<Rightarrow> (None, db1)
      | (Inr u, db1) \<Rightarrow>
          if log_create_raises env status then (None, db1)
          else (let log_entry = \<lparr>log_topic = topic, log_status = status,
                                   errorMsg = error_msg, blogPostId = blog_post_id\<rparr>
                in (Some log_entry, db1\<lparr>logs := logs db1 @ [log_entry]\<rparr>)))"

definition save_blog_post ::
  "'x db_env_scheme \<Rightarrow> string \<Rightarrow> string \<Rightarrow> string \<Rightarrow> string list \<Rightarrow> nat option \<Rightarrow>
   string option \<Rightarrow> string option \<Rightarrow> database \<Rightarrow> blog_post option \<times> database" where
  "save_blog_post = create_blog_post"

definition log_generation ::
  "'x db_env_scheme \<Rightarrow> string \<Rightarrow> string \<Rightarrow> string option \<Rightarrow> nat option \<Rightarrow> database \<Rightarrow>
   generation_log option \<times> database" where
  "log_generation = log_generation_attempt"

section \<open>The generation orchestrator\<close>

text \<open>
  What is outside the program during one run of \<open>generate_blog_post\<close>: the database,
  the agent pipeline (\<open>crew.kickoff()\<close> for a topic raises, or returns its output, \<open>None\<close>
  standing for a falsy one), the clock, the random draws and the run-time exceptions
  of the extractor.
\<close>

record gen_env = db_env +
  kickoff :: "string \<Rightarrow> py_error + string option"
  current_year :: nat
  draws :: "nat \<times> nat"
  extractor_raises :: "nat \<Rightarrow> bool"

record post_summary =
  sum_id :: nat
  sum_title :: string
  sum_topic :: string
  sum_tags :: "string list"
  sum_word_count :: "nat option"

text \<open>The statements of the try block from the first \<open>log_generation\<close> on.\<close>

definition generate_try ::
  "gen_env \<Rightarrow> string \<Rightarrow> database \<Rightarrow> (py_error + post_summary option) \<times> database" where
  "generate_try env topic db0 =
     (let (l0, db1) = log_generation env topic ''in_progress'' None None db0
      in case kickoff env topic of
           Inl e \<Rightarrow> (Inl e, db1)
         | Inr None \<Rightarrow>
             (let (l1, db2) = log_generation env topic ''failed''
                                (Some ''No output generated from crew'') None db1
              in (Inr None, db2))
         | Inr (Some result) \<Rightarrow>
             (let blog_components = extract_blog_components (extractor_raises env) result;
                  (saved, db2) = save_blog_post env (title blog_components)
                                   (content blog_components) topic (tags blog_components)
                                   (Some (word_count blog_components))
                                   (meta_description blog_components) None db1
              in case saved of
                   Some blog_post \<Rightarrow>
                     (let (l1, db3) = log_generation env topic ''success'' None
                                        (Some (bp_id blog_post)) db2
                      in (Inr (Some \<lparr>sum_id = bp_id blog_post, sum_title = bp_title blog_post,
                                      sum_topic = topic, sum_tags = bp_tags blog_post,
                                      sum_word_count = wordCount blog_post\<rparr>), db3))
                 | None \<Rightarrow>
                     (let (l1, db3) = log_generation env topic ''failed''
                                        (Some ''Failed to save to database'') None db2
                      in (Inr None, db3))))"

text \<open>The \<open>except Exception\<close> branch; \<open>topic\<close> is \<open>unknown\<close> when it was not bound yet.\<close>

definition generate_except ::
  "gen_env \<Rightarrow> string \<Rightarrow> py_error \<Rightarrow> database \<Rightarrow> (py_error + post_summary option) \<times> database" where
  "generate_except env topic e db =
     (let error_msg = ''Error generating blog post: '' @ str_of e;
          (l, db1) = log_generation env topic ''failed'' (Some error_msg) None db
      in (Inr None, db1))"

text \<open>\<open>topic = custom_topic or self.generate_dynamic_topic()\<close>\<close>

definition resolve_topic :: "gen_env \<Rightarrow> string option \<Rightarrow> py_error + string" where
  "resolve_topic env custom_topic =
     (case custom_topic of
        None \<Rightarrow> generate_dynamic_topic [] (current_year env) (draws env)
      | Some t \<Rightarrow> if t = [] then generate_dynamic_topic [] (current_year env) (draws env)
                 else Inr t)"

definition generate_blog_post ::
  "gen_env \<Rightarrow> string option \<Rightarrow> database \<Rightarrow> (py_error + post_summary option) \<times> database" where
  "generate_blog_post env custom_topic db0 =
     (case resolve_topic env custom_topic of
        Inl e \<Rightarrow> generate_except env ''unknown'' e db0
      | Inr topic \<Rightarrow>
          (case generate_try env topic db0 of
             (Inl e, db1) \<Rightarrow> generate_except env topic e db1
           | (Inr r, db1) \<Rightarrow> (Inr r, db1)))"

text \<open>\<open>BlogScheduler.generate_blog_job\<close> (scheduler.py), the body the timer runs.\<close>

definition generate_blog_job :: "gen_env \<Rightarrow> database \<Rightarrow> (py_error + unit) \<times> database" where
  "generate_blog_job env db0 =
     (case connect env db0 of
        (Inl e, db1) \<Rightarrow> (Inr (), db1)
      | (Inr u, db1) \<Rightarrow>
          (case generate_blog_post env None db1 of
             (Inl e, db2) \<Rightarrow> (Inr (), db2)
           | (Inr result, db2) \<Rightarrow> (Inr (), db2)))"

section \<open>The health endpoint\<close>

text \<open>
  The attributes of the \<open>db_manager\<close> object: the methods of class \<open>DatabaseManager\<close>
  and the two fields its \<open>__init__\<close> sets.  Reading any other attribute raises
  \<open>AttributeError\<close>.
\<close>

definition DatabaseManager_attrs :: "string list" where
  "DatabaseManager_attrs =
     [''__init__'', ''generate_slug'', ''connect'', ''disconnect'', ''create_blog_post'',
      ''get_recent_blog_posts'', ''get_blog_posts_by_topic'', ''log_generation_attempt'',
      ''get_generation_stats'', ''db'', ''_connected'']"

definition db_manager_getattr :: "string \<Rightarrow> py_error + string" where
  "db_manager_getattr name =
     (if name \<in> set DatabaseManager_attrs then Inr name
      else Inl (AttributeError (CHR 0x27 # ''DatabaseManager'' @ CHR 0x27 #
                  '' object has no attribute '' @ CHR 0x27 # name @ [CHR 0x27])))"

record health_response =
  status_code :: nat
  status :: string
  hr_database :: string
  hr_scheduler :: string
  hr_error :: "string option"

text \<open>
  \<open>health_check\<close> of main.py.  \<open>call\<close> is what calling a bound method that answers a
  truth value does to the database; \<open>sched_running\<close> is \<open>blog_scheduler.is_running()\<close>.
\<close>

definition health_try ::
  "'x db_env_scheme \<Rightarrow> (string \<Rightarrow> database \<Rightarrow> (py_error + bool) \<times> database) \<Rightarrow> bool \<Rightarrow>
   database \<Rightarrow> (py_error + health_response) \<times> database" where
  "health_try env call sched_running db0 =
     (case db_manager_getattr ''health_check'' of
        Inl e \<Rightarrow> (Inl e, db0)
      | Inr m \<Rightarrow>
          (case call m db0 of
             (Inl e, db1) \<Rightarrow> (Inl e, db1)
           | (Inr db_healthy0, db1) \<Rightarrow>
               (case (if \<not> db_healthy0
                      then (case connect env db1 of
                              (Inl e, db2) \<Rightarrow> (Inl e, db2)
                            | (Inr u, db2) \<Rightarrow>
                                (case db_manager_getattr ''health_check'' of
                                   Inl e \<Rightarrow> (Inl e, db2)
                                 | Inr m2 \<Rightarrow> call m2 db2))
                      else (Inr db_healthy0, db1)) of
                  (Inl e, db3) \<Rightarrow> (Inl e, db3)
                | (Inr db_healthy, db3) \<Rightarrow>
                    (Inr \<lparr>status_code = (if db_healthy then 200 else 503),
                          status = (if db_healthy then ''healthy'' else ''unhealthy''),
                          hr_database = (if db_healthy then ''connected'' else ''disconnected''),
                          hr_scheduler = (if sched_running then ''running'' else ''stopped''),
                          hr_error = None\<rparr>, db3))))"

definition health_check ::
  "'x db_env_scheme \<Rightarrow> (string \<Rightarrow> database \<Rightarrow> (py_error + bool) \<times> database) \<Rightarrow> bool \<Rightarrow>
   database \<Rightarrow> health_response \<times> database" where
  "health_check env call sched_running db0 =
     (case health_try env call sched_running db0 of
        (Inr response, db1) \<Rightarrow> (response, db1)
      | (Inl e, db1) \<Rightarrow>
          (\<lparr>status_code = 503, status = ''unhealthy'', hr_database = ''error'',
            hr_scheduler = ''unknown'', hr_error = Some (str_of e)\<rparr>, db1))"

section \<open>Loading main.py\<close>

text \<open>
  The route \<open>/health\<close> exists once Python has compiled and run the module main.py.
  The compiler rejects a function in which a name is declared \<open>global\<close> after the
  function has used it or assigned to it.  For this rule a function is the sequence of
  its statements that mention a name, in the order of the source; the four functions of
  main.py that declare \<open>scheduler_started\<close> global are given in this form.
\<close>

datatype name_event = Global string | Use string | Assign string

fun check_globals :: "string list \<Rightarrow> string list \<Rightarrow> name_event list \<Rightarrow> py_error + unit" where
  "check_globals used assigned [] = Inr ()"
| "check_globals used assigned (Use n # es) = check_globals (n # used) assigned es"
| "check_globals used assigned (Assign n # es) = check_globals used (n # assigned) es"
| "check_globals used assigned (Global n # es) =
     (if n \<in> set used
      then Inl (SyntaxError (''name '' @ CHR 0x27 # n @ CHR 0x27 #
                  '' is used prior to global declaration''))
      else if n \<in> set assigned
      then Inl (SyntaxError (''name '' @ CHR 0x27 # n @ CHR 0x27 #
                  '' is assigned to before global declaration''))
      else check_globals used assigned es)"

text \<open>
  \<open>lifespan\<close> (lines 39 to 83): the start-up block declares the name, reads it and
  assigns to it; the shutdown block after \<open>yield\<close> declares it again at line 70.
\<close>

definition lifespan_names :: "name_event list" where
  "lifespan_names =
     [Use ''logger'', Use ''db_manager'', Use ''logger'',
      Global ''scheduler_started'', Use ''scheduler_started'', Use ''blog_scheduler'',
      Assign ''scheduler_started'', Use ''logger'', Use ''logger'',
      Assign ''e'', Use ''logger'', Use ''e'',
      Use ''logger'',
      Global ''scheduler_started'', Use ''scheduler_started'', Use ''blog_scheduler'',
      Assign ''scheduler_started'', Use ''logger'', Use ''db_manager'', Use ''logger'',
      Use ''logger'', Assign ''e'', Use ''logger'', Use ''e'']"

definition start_scheduler_names :: "name_event list" where
  "start_scheduler_names =
     [Global ''scheduler_started'', Use ''scheduler_started'', Use ''datetime'',
      Use ''blog_scheduler'', Use ''config'', Assign ''scheduler_started'', Use ''config'',
      Use ''datetime'', Assign ''e'', Use ''logger'', Use ''e'', Use ''HTTPException'',
      Use ''str'', Use ''e'']"

definition stop_scheduler_endpoint_names :: "name_event list" where
  "stop_scheduler_endpoint_names =
     [Global ''scheduler_started'', Use ''scheduler_started'', Use ''datetime'',
      Use ''blog_scheduler'', Assign ''scheduler_started'', Use ''datetime'',
      Assign ''e'', Use ''logger'', Use ''e'', Use ''HTTPException'', Use ''str'', Use ''e'']"

definition signal_handler_names :: "name_event list" where
  "signal_handler_names =
     [Use ''logger'', Use ''signum'', Global ''scheduler_started'', Use ''scheduler_started'',
      Use ''blog_scheduler'', Assign ''scheduler_started'', Use ''sys'']"

fun compile_functions :: "name_event list list \<Rightarrow> py_error + unit" where
  "compile_functions [] = Inr ()"
| "compile_functions (f # fs) =
     (case check_globals [] [] f of Inl e \<Rightarrow> Inl e | Inr u \<Rightarrow> compile_functions fs)"

definition import_main :: "py_error + unit" where
  "import_main =
     compile_functions [lifespan_names, start_scheduler_names, stop_scheduler_endpoint_names,
                        signal_handler_names]"

text \<open>
  A request \<open>GET /health\<close>: it is answered by the handler when the module has loaded,
  and by nobody when it has not.
\<close>

definition get_health ::
  "'x db_env_scheme \<Rightarrow> (string \<Rightarrow> database \<Rightarrow> (py_error + bool) \<times> database) \<Rightarrow> bool \<Rightarrow>
   database \<Rightarrow> (py_error + health_response) \<times> database" where
  "get_health env call sched_running db0 =
     (case import_main of
        Inl e \<Rightarrow> (Inl e, db0)
      | Inr u \<Rightarrow>
          (case health_check env call sched_running db0 of
             (response, db1) \<Rightarrow> (Inr response, db1)))"

section \<open>The job scheduler wrapper\<close>

text \<open>
  \<open>BlogScheduler\<close> (scheduler.py) around an APScheduler instance.  The instance is
  outside the program: its state is of any type \<open>'e\<close>, and \<open>aps\<close> gives its operations,
  each returning the exception it raises, if any, and the state it leaves.
\<close>

datatype trigger = IntervalMinutes int | IntervalHours int | Cron nat nat

record job =
  job_id :: string
  job_name :: string
  job_trigger :: trigger

record 'e aps =
  add_job :: "job \<Rightarrow> 'e \<Rightarrow> py_error option \<times> 'e"
  start :: "'e \<Rightarrow> py_error option \<times> 'e"
  shutdown :: "'e \<Rightarrow> py_error option \<times> 'e"
  get_jobs :: "'e \<Rightarrow> (string \<times> string) list"

datatype level = INFO | WARNING | ERROR

record 'e blog_scheduler =
  scheduler :: 'e
  running :: bool
  messages :: "(level \<times> string) list"

definition logger :: "level \<Rightarrow> string \<Rightarrow> 'e blog_scheduler \<Rightarrow> 'e blog_scheduler" where
  "logger lv msg st = st\<lparr>messages := messages st @ [(lv, msg)]\<rparr>"

definition start_failed ::
  "py_error \<Rightarrow> 'e \<Rightarrow> 'e blog_scheduler \<Rightarrow> (py_error + unit) \<times> 'e blog_scheduler" where
  "start_failed e eng st =
     (Inl e, logger ERROR (''Error starting scheduler: '' @ str_of e) (st\<lparr>scheduler := eng\<rparr>))"

text \<open>The loop \<open>for job in self.scheduler.get_jobs()\<close>, over names and next run times.\<close>

fun log_jobs :: "(string \<times> string) list \<Rightarrow> 'e blog_scheduler \<Rightarrow> 'e blog_scheduler" where
  "log_jobs [] st = st"
| "log_jobs ((name, next_run_time) # jobs) st =
     log_jobs jobs (logger INFO (''  - '' @ name @ '': '' @ next_run_time) st)"

text \<open>Calls on the instance in sequence; the first exception ends the sequence.\<close>

fun run_calls :: "('e \<Rightarrow> py_error option \<times> 'e) list \<Rightarrow> 'e \<Rightarrow> py_error option \<times> 'e" where
  "run_calls [] eng = (None, eng)"
| "run_calls (c # cs) eng =
     (case c eng of (Some e, eng1) \<Rightarrow> (Some e, eng1) | (None, eng1) \<Rightarrow> run_calls cs eng1)"

definition start_scheduler ::
  "'e aps \<Rightarrow> int \<Rightarrow> 'e blog_scheduler \<Rightarrow> (py_error + unit) \<times> 'e blog_scheduler" where
  "start_scheduler ext interval_minutes st =
     (if running st then (Inr (), logger WARNING ''Scheduler is already running'' st)
      else
        (case run_calls
                [add_job ext \<lparr>job_id = ''blog_generation_job'',
                               job_name = ''Generate Blog Post'',
                               job_trigger = IntervalMinutes interval_minutes\<rparr>,
                 add_job ext \<lparr>job_id = ''stats_reporting_job'',
                               job_name = ''Report Generation Stats'',
                               job_trigger = IntervalHours 1\<rparr>,
                 add_job ext \<lparr>job_id = ''daily_cleanup_job'', job_name = ''Daily Cleanup'',
                               job_trigger = Cron 2 0\<rparr>,
                 start ext] (scheduler st) of
           (Some e, eng) \<Rightarrow> start_failed e eng st
         | (None, eng) \<Rightarrow>
             (let st1 = st\<lparr>scheduler := eng, running := True\<rparr>;
                  st2 = logger INFO ''Blog scheduler started successfully!'' st1;
                  st3 = (if interval_minutes \<ge> 1440
                         then logger INFO (''Blog generation interval: ''
                                @ str_int (interval_minutes div 60) @ '' hours (''
                                @ str_int interval_minutes @ '' minutes)'') st2
                         else logger INFO (''Blog generation interval: ''
                                @ str_int interval_minutes @ '' minutes'') st2);
                  st4 = logger INFO ''Next job times:'' st3
              in (Inr (), log_jobs (get_jobs ext eng) st4))))"

definition stop_scheduler :: "'e aps \<Rightarrow> 'e blog_scheduler \<Rightarrow> 'e blog_scheduler" where
  "stop_scheduler ext st =
     (if \<not> running st then logger WARNING ''Scheduler is not running'' st
      else case shutdown ext (scheduler st) of
             (Some e, eng1) \<Rightarrow>
               logger ERROR (''Error stopping scheduler: '' @ str_of e) (st\<lparr>scheduler := eng1\<rparr>)
           | (None, eng1) \<Rightarrow>
               logger INFO ''Blog scheduler stopped successfully''
                 (st\<lparr>scheduler := eng1, running := False\<rparr>))"

definition is_running :: "'e blog_scheduler \<Rightarrow> bool" where
  "is_running st = running st"

section \<open>Formats and inputs named by the specification\<close>

text \<open>
  The slug format of the specification, \<open>^[a-z0-9]+(-[a-z0-9]+)*$\<close> or the empty
  string: runs of lower-case ASCII letters and digits, separated by single hyphens.
  The flag of \<open>slug_runs\<close> says that the character before was a letter or a digit.
\<close>

definition slug_alnum :: "char \<Rightarrow> bool" where
  "slug_alnum c = (let n = (of_char c :: nat) in
     (97 \<le> n \<and> n \<le> 122) \<or> (48 \<le> n \<and> n \<le> 57))"

fun slug_runs :: "bool \<Rightarrow> string \<Rightarrow> bool" where
  "slug_runs after_alnum [] = after_alnum"
| "slug_runs after_alnum (c # cs) =
     (if slug_alnum c then slug_runs True cs
      else if c = CHR ''-'' \<and> after_alnum then slug_runs False cs
      else False)"

definition spec_slug_format :: "string \<Rightarrow> bool" where
  "spec_slug_format s = (if s = [] then True else slug_runs False s)"

text \<open>A title of 101 characters: 99 times \<open>a\<close>, a space, and \<open>b\<close>.\<close>

definition long_title :: string where
  "long_title = replicate 99 CHR ''a'' @ '' b''"

text \<open>
  An APScheduler stand-in that keeps the identifiers of its jobs (a job added under an
  identifier already there replaces the old one), and one whose \<open>shutdown\<close> raises.
\<close>

definition memory_aps :: "string list aps" where
  "memory_aps =
     \<lparr>add_job = (\<lambda>j eng. (None, if job_id j \<in> set eng then eng else eng @ [job_id j])),
      start = (\<lambda>eng. (None, eng)),
      shutdown = (\<lambda>eng. (None, eng)),
      get_jobs = (\<lambda>eng. map (\<lambda>i. (i, ''soon'')) eng)\<rparr>"

definition stuck_aps :: "string list aps" where
  "stuck_aps = memory_aps\<lparr>shutdown := (\<lambda>eng. (Some (OtherError ''Event loop is closed''), eng))\<rparr>"

definition idle_scheduler :: "string list blog_scheduler" where
  "idle_scheduler = \<lparr>scheduler = [], running = False, messages = []\<rparr>"

text \<open>
  The topic a run of \<open>generate_blog_post\<close> works on, and the failures of its steps: the
  pipeline raises or returns nothing, or the post is not saved (the database cannot be
  reached, or the insertion raises).
\<close>

definition topic_of :: "gen_env \<Rightarrow> string option \<Rightarrow> string" where
  "topic_of env custom_topic =
     (case resolve_topic env custom_topic of Inl e \<Rightarrow> ''unknown'' | Inr topic \<Rightarrow> topic)"

definition reachable :: "'x db_env_scheme \<Rightarrow> database \<Rightarrow> bool" where
  "reachable env db = (connected db \<or> \<not> connect_raises env)"

definition step_fails :: "gen_env \<Rightarrow> string option \<Rightarrow> database \<Rightarrow> bool" where
  "step_fails env custom_topic db =
     (case kickoff env (topic_of env custom_topic) of
        Inl e \<Rightarrow> True
      | Inr None \<Rightarrow> True
      | Inr (Some result) \<Rightarrow>
          \<not> reachable env db \<or> post_create_raises env)"

definition log_write_succeeds :: "gen_env \<Rightarrow> database \<Rightarrow> bool" where
  "log_write_succeeds env db = (reachable env db \<and> \<not> log_create_raises env ''failed'')"

text \<open>
  Two surroundings of a run: a database that cannot be reached while the pipeline
  answers, and a pipeline that raises while the database works.
\<close>

definition db_down_env :: gen_env where
  "db_down_env =
     \<lparr>connect_raises = True, post_create_raises = False, log_create_raises = (\<lambda>s. False),
      kickoff = (\<lambda>t. Inr (Some ''# Edge AI today\<newline>\<newline>Short body.'')),
      current_year = 2025, draws = (0, 0), extractor_raises = no_raise\<rparr>"

definition crew_down_env :: gen_env where
  "crew_down_env =
     \<lparr>connect_raises = False, post_create_raises = False, log_create_raises = (\<lambda>s. False),
      kickoff = (\<lambda>t. Inl (OtherError ''rate limit'')),
      current_year = 2025, draws = (0, 0), extractor_raises = no_raise\<rparr>"

definition empty_db :: database where
  "empty_db = \<lparr>connected = False, posts = [], logs = []\<rparr>"

text \<open>The error message that a failed run asks the log to record.\<close>

definition failure_message :: "gen_env \<Rightarrow> string option \<Rightarrow> string" where
  "failure_message env custom_topic =
     (case kickoff env (topic_of env custom_topic) of
        Inl e \<Rightarrow> ''Error generating blog post: '' @ str_of e
      | Inr None \<Rightarrow> ''No output generated from crew''
      | Inr (Some result) \<Rightarrow> ''Failed to save to database'')"

text \<open>
  Expressions every match of which goes through the capturing group, so that
  \<open>group(1)\<close> is a string after a match.
\<close>

fun sets_group :: "regex \<Rightarrow> bool" where
  "sets_group (Group r) = True"
| "sets_group (Seq a b) = (sets_group a \<or> sets_group b)"
| "sets_group (Alt a b) = (sets_group a \<and> sets_group b)"
| "sets_group r = False"

text \<open>A run-time that raises at one statement only.\<close>

definition raise_at :: "nat \<Rightarrow> nat \<Rightarrow> bool" where
  "raise_at j k = (k = j)"

text \<open>
  The word count of the specification: the characters \<open>#\<close>, \<open>*\<close>, backtick, brackets
  and parentheses are removed, and the whitespace-delimited tokens are counted, a token
  starting at each character that is not whitespace and follows whitespace or nothing.
\<close>

fun token_starts :: "bool \<Rightarrow> string \<Rightarrow> nat" where
  "token_starts after_space [] = 0"
| "token_starts after_space (c # cs) =
     (if \<not> py_isspace c \<and> after_space then 1 else 0) + token_starts (py_isspace c) cs"

definition spec_word_count :: "string \<Rightarrow> nat" where
  "spec_word_count text =
     token_starts True
       (filter (\<lambda>c. c \<notin> set [CHR ''#'', CHR ''*'', CHR 0x60, CHR ''['', CHR '']'', CHR ''('',
                                 CHR '')'']) text)"

text \<open>
  Where a text has a heading and a tags marker.  \<open>has_heading\<close> says that some line
  starts with \<open>#\<close> followed by whitespace (the flag: the position is the start of a
  line); \<open>has_marker\<close> says that \<open>**Tags:**\<close> occurs somewhere, in any letter case.
\<close>

fun has_heading :: "bool \<Rightarrow> string \<Rightarrow> bool" where
  "has_heading at_start [] = False"
| "has_heading at_start [c] = (at_start \<and> c = CHR ''#'')"
| "has_heading at_start (c # d # cs) =
     ((at_start \<and> c = CHR ''#'' \<and> py_isspace d) \<or> has_heading (c = CHR 0x0A) (d # cs))"

definition marker_at :: "string \<Rightarrow> bool" where
  "marker_at s = (map py_lower_char (take 9 s) = ''**tags:**'')"

fun has_marker :: "string \<Rightarrow> bool" where
  "has_marker [] = False"
| "has_marker (c # cs) = (marker_at (c # cs) \<or> has_marker cs)"

text \<open>
  The example text of the specification, with a body between heading and tags, and a
  longer one: an introduction before the heading, emphasis and a list item in the body,
  and a meta description after the tags line.
\<close>

definition spec_example :: string where
  "spec_example = ''# My Title\<newline>\<newline>Some body text.\<newline>\<newline>**Tags:** a, b, c''"

definition long_example :: string where
  "long_example =
     ''Posted today\<newline>'' @ ''# My Title\<newline>'' @
     ''\<newline>Some **bold** text.\<newline>* an item\<newline>\<newline>'' @ ''**Tags:** a, b, c'' @
     ''\<newline>Meta Description: A short summary.\<newline>''"

section \<open>Claims about the slug generator\<close>

text \<open>
  Claim C3 says that every slug is empty or matches \<open>^[a-z0-9]+(-[a-z0-9]+)*$\<close> and has
  at most 100 characters.  The code strips the hyphens before it truncates, so a slug cut
  at 100 characters may end in a hyphen: for the title \<open>long_title\<close> the slug is 99
  times \<open>a\<close> followed by a hyphen, which is not of the format.
\<close>

theorem generate_slug_trailing_hyphen:
  "generate_slug long_title = replicate 99 CHR ''a'' @ ''-'' \<and>
   spec_slug_format (generate_slug long_title) = False"
  by code_simp

text \<open>
  Claim C7 says that \<open>generate_slug\<close> is idempotent.  For the same title the slug ends in
  a hyphen, and a second application strips it: the two results differ.
\<close>

theorem generate_slug_not_idempotent:
  "generate_slug (generate_slug long_title) = replicate 99 CHR ''a'' \<and>
   generate_slug (generate_slug long_title) \<noteq> generate_slug long_title"
  by code_simp

section \<open>Claims about the topic selector\<close>

lemma generate_dynamic_topic_no_args:
  "generate_dynamic_topic [] y d =
     Inr (GENERATIVE_AI_TOPICS ! (fst d mod 20) @ '' - '' @ trending_aspects y ! (snd d mod 6))"
  by (simp add: generate_dynamic_topic_def choice_def GENERATIVE_AI_TOPICS_def
        trending_aspects_def)

text \<open>
  Claim C2 says that the topic selector accepts a theme and that the theme
  \<open>blockchain\<close> draws from the blockchain pool only.  The method of the source takes no
  theme: a call with the argument \<open>blockchain\<close> raises \<open>TypeError\<close>, whatever the clock
  and the random draws are, and a call without argument draws its topic from
  \<open>GENERATIVE_AI_TOPICS\<close>, the only pool there is.
\<close>

theorem generate_dynamic_topic_rejects_theme:
  "generate_dynamic_topic [''blockchain''] year ds =
     Inl (TypeError ''generate_dynamic_topic() takes 1 positional argument'') \<and>
   (\<exists>base_topic aspect.
      generate_dynamic_topic [] year ds = Inr (base_topic @ '' - '' @ aspect) \<and>
      base_topic \<in> set GENERATIVE_AI_TOPICS)"
proof -
  have "fst ds mod 20 < length GENERATIVE_AI_TOPICS"
    by (simp add: GENERATIVE_AI_TOPICS_def)
  then have "GENERATIVE_AI_TOPICS ! (fst ds mod 20) \<in> set GENERATIVE_AI_TOPICS"
    by (rule nth_mem)
  then show ?thesis
    by (auto simp: generate_dynamic_topic_no_args) (simp add: generate_dynamic_topic_def)
qed

section \<open>Claims about the health endpoint\<close>

text \<open>
  The handler by itself: \<open>db_manager\<close> has no attribute \<open>health_check\<close>, so the body
  raises \<open>AttributeError\<close> at its first statement and the \<open>except\<close> branch answers 503
  with the database reported as \<open>error\<close>, for every state of the database and of the
  scheduler.
\<close>

lemma health_check_handler:
  "fst (health_try env call sched_running db) =
     Inl (AttributeError (CHR 0x27 # ''DatabaseManager'' @ CHR 0x27 #
            '' object has no attribute '' @ CHR 0x27 # ''health_check'' @ [CHR 0x27])) \<and>
   fst (health_check env call sched_running db) =
     \<lparr>status_code = 503, status = ''unhealthy'', hr_database = ''error'',
      hr_scheduler = ''unknown'',
      hr_error = Some (CHR 0x27 # ''DatabaseManager'' @ CHR 0x27 #
            '' object has no attribute '' @ CHR 0x27 # ''health_check'' @ [CHR 0x27])\<rparr>"
  by (simp add: health_check_def health_try_def db_manager_getattr_def
        DatabaseManager_attrs_def)

text \<open>
  Claim C6 says that every request to \<open>GET /health\<close> is answered with status 503 and
  the database reported as \<open>error\<close>.  The handler would answer so, but main.py does
  not compile: \<open>lifespan\<close> declares \<open>scheduler_started\<close> global a second time after
  using it, Python raises \<open>SyntaxError\<close> when the module is loaded, and no request is
  answered at all.
\<close>

theorem get_health_never_answered:
  "import_main =
     Inl (SyntaxError (''name '' @ CHR 0x27 # ''scheduler_started'' @ CHR 0x27 #
            '' is used prior to global declaration'')) \<and>
   get_health env call sched_running db =
     (Inl (SyntaxError (''name '' @ CHR 0x27 # ''scheduler_started'' @ CHR 0x27 #
             '' is used prior to global declaration'')), db)"
  by (simp add: get_health_def import_main_def lifespan_names_def)

section \<open>Claims about the job scheduler wrapper\<close>

lemma logger_fields [simp]:
  "running (logger lv m st) = running st"
  "scheduler (logger lv m st) = scheduler st"
  "messages (logger lv m st) = messages st @ [(lv, m)]"
  by (simp_all add: logger_def)

lemma log_jobs_fields [simp]:
  "running (log_jobs js st) = running st"
  "scheduler (log_jobs js st) = scheduler st"
  by (induction js st rule: log_jobs.induct) simp_all

lemma start_scheduler_running:
  "running st \<Longrightarrow>
     start_scheduler ext n st = (Inr (), logger WARNING ''Scheduler is already running'' st)"
  by (simp add: start_scheduler_def)

lemma start_scheduler_flag:
  "is_running (snd (start_scheduler ext n st)) = (fst (start_scheduler ext n st) = Inr ())"
  by (simp add: start_scheduler_def is_running_def start_failed_def Let_def
        split: prod.splits option.splits)

lemma stop_scheduler_flag:
  "is_running (stop_scheduler ext st) =
     (running st \<and> fst (shutdown ext (scheduler st)) \<noteq> None)"
  by (auto simp: stop_scheduler_def is_running_def split: prod.splits option.splits)

text \<open>
  Claim C10 says that a start while the scheduler runs logs a warning and registers no
  job, and that \<open>is_running()\<close> is true exactly after a successful start and false
  exactly after a stop.  The last part fails when the \<open>shutdown\<close> of the APScheduler
  instance raises: \<open>stop_scheduler\<close> logs the error and returns with the flag still set.
\<close>

theorem stop_scheduler_keeps_flag_on_error:
  "is_running (stop_scheduler stuck_aps (snd (start_scheduler stuck_aps 1440 idle_scheduler)))
     = True"
  by (simp add: stuck_aps_def memory_aps_def idle_scheduler_def start_scheduler_def
        stop_scheduler_def is_running_def Let_def)

text \<open>
  Claim C10 as amended.  A start while the scheduler runs returns after logging the
  warning, with no call on the APScheduler instance, whose state (and so its jobs) is as
  before.  After \<open>start_scheduler\<close> the flag is set exactly when the call returned without
  an exception.  After \<open>stop_scheduler\<close> the flag is cleared exactly when the scheduler
  was not running or its \<open>shutdown\<close> raised nothing.
\<close>

theorem start_stop_flag:
  "(running st \<longrightarrow>
      start_scheduler ext n st = (Inr (), logger WARNING ''Scheduler is already running'' st) \<and>
      scheduler (snd (start_scheduler ext n st)) = scheduler st) \<and>
   is_running (snd (start_scheduler ext n st)) = (fst (start_scheduler ext n st) = Inr ()) \<and>
   is_running (stop_scheduler ext st) =
     (running st \<and> fst (shutdown ext (scheduler st)) \<noteq> None)"
  using start_scheduler_flag [of ext n st] stop_scheduler_flag [of ext st]
  by (simp add: start_scheduler_running)

theorem start_stop_flag_witness:
  "running (snd (start_scheduler memory_aps 10 idle_scheduler)) \<and>
  scheduler (snd (start_scheduler memory_aps 10 idle_scheduler)) = [''blog_generation_job'', ''stats_reporting_job'', ''daily_cleanup_job''] \<and>
  scheduler (snd (start_scheduler memory_aps 10 (snd (start_scheduler memory_aps 10 idle_scheduler)))) = [''blog_generation_job'', ''stats_reporting_job'', ''daily_cleanup_job''] \<and>
   is_running (stop_scheduler memory_aps (snd (start_scheduler memory_aps 10 idle_scheduler))) = False"
proof -
  let ?st = "snd (start_scheduler memory_aps 10 idle_scheduler)"
  have r: "running ?st"
    by (simp add: memory_aps_def idle_scheduler_def start_scheduler_def Let_def)
  have s: "scheduler ?st = [''blog_generation_job'', ''stats_reporting_job'', ''daily_cleanup_job'']"
    by (simp add: memory_aps_def idle_scheduler_def start_scheduler_def Let_def)
  have sh: "fst (shutdown memory_aps (scheduler ?st)) = None"
    by (simp add: memory_aps_def)
  from start_stop_flag [of ?st memory_aps 10] r s sh show ?thesis by simp
qed


section \<open>Claims about the generation orchestrator\<close>

lemma resolve_topic_Inr: "resolve_topic env custom_topic = Inr (topic_of env custom_topic)"
  by (simp add: topic_of_def resolve_topic_def generate_dynamic_topic_no_args
        split: option.splits)

lemma log_generation_cases:
  "log_generation env t s m b db =
     (if reachable env db \<and> \<not> log_create_raises env s
      then (Some \<lparr>log_topic = t, log_status = s, errorMsg = m, blogPostId = b\<rparr>,
            db\<lparr>connected := True,
               logs := logs db @ [\<lparr>log_topic = t, log_status = s, errorMsg = m,
                                   blogPostId = b\<rparr>]\<rparr>)
      else (None, db\<lparr>connected := reachable env db\<rparr>))"
  by (cases db)
     (auto simp: log_generation_def log_generation_attempt_def connect_def Let_def
        reachable_def)

lemma log_generation_reachable:
  "reachable env (snd (log_generation env t s m b db)) = reachable env db"
  by (simp add: log_generation_cases reachable_def)

lemma save_blog_post_None:
  "(fst (save_blog_post env ti co t tg w m None db) = None) =
     (\<not> reachable env db \<or> post_create_raises env)"
  by (cases db)
     (auto simp: save_blog_post_def create_blog_post_def connect_def Let_def reachable_def)

lemma save_blog_post_reachable:
  "reachable env (snd (save_blog_post env ti co t tg w m sl db)) = reachable env db"
  by (cases db)
     (auto simp: save_blog_post_def create_blog_post_def connect_def Let_def reachable_def
        split: option.splits)

lemma log_failed_last:
  "reachable env db \<Longrightarrow> \<not> log_create_raises env ''failed'' \<Longrightarrow>
     logs (snd (log_generation env t ''failed'' (Some m) None db)) \<noteq> [] \<and>
     last (logs (snd (log_generation env t ''failed'' (Some m) None db))) =
       \<lparr>log_topic = t, log_status = ''failed'', errorMsg = Some m, blogPostId = None\<rparr>"
  by (simp add: log_generation_cases)

lemma generate_blog_post_topic:
  "generate_blog_post env custom_topic db =
     (case generate_try env (topic_of env custom_topic) db of
        (Inl e, db1) \<Rightarrow> generate_except env (topic_of env custom_topic) e db1
      | (Inr r, db1) \<Rightarrow> (Inr r, db1))"
  by (simp add: generate_blog_post_def resolve_topic_Inr)

lemma generate_blog_post_Inr:
  "\<exists>r. fst (generate_blog_post env custom_topic db) = Inr r"
  by (simp add: generate_blog_post_topic generate_except_def split: prod.splits sum.splits)

lemma generate_blog_job_Inr: "fst (generate_blog_job env db) = Inr ()"
  by (simp add: generate_blog_job_def split: prod.splits sum.splits)

lemma generate_blog_post_fails:
  assumes "step_fails env custom_topic db"
  shows "\<exists>db1. reachable env db1 = reachable env db \<and>
           generate_blog_post env custom_topic db =
             (Inr None, snd (log_generation env (topic_of env custom_topic) ''failed''
                          (Some (failure_message env custom_topic)) None db1))"
proof -
  let ?T = "topic_of env custom_topic"
  obtain l0 db1 where l0: "log_generation env ?T ''in_progress'' None None db = (l0, db1)"
    by (cases "log_generation env ?T ''in_progress'' None None db") simp
  have r1: "reachable env db1 = reachable env db"
    using log_generation_reachable [of env ?T "''in_progress''" None None db] l0 by simp
  show ?thesis
  proof (cases "kickoff env ?T")
    case (Inl e)
    with l0 r1 show ?thesis
      by (auto simp: generate_blog_post_topic generate_try_def generate_except_def
            failure_message_def split: prod.splits)
  next
    case (Inr out)
    show ?thesis
    proof (cases out)
      case None
      with Inr l0 r1 show ?thesis
        by (auto simp: generate_blog_post_topic generate_try_def failure_message_def
              split: prod.splits)
    next
      case (Some result)
      let ?bc = "extract_blog_components (extractor_raises env) result"
      obtain saved db2 where sv: "save_blog_post env (title ?bc) (content ?bc) ?T (tags ?bc)
           (Some (word_count ?bc)) (meta_description ?bc) None db1 = (saved, db2)"
        by (cases "save_blog_post env (title ?bc) (content ?bc) ?T (tags ?bc)
           (Some (word_count ?bc)) (meta_description ?bc) None db1") simp
      have r2: "reachable env db2 = reachable env db"
        using save_blog_post_reachable [of env "title ?bc" "content ?bc" ?T "tags ?bc"
           "Some (word_count ?bc)" "meta_description ?bc" None db1] sv r1 by simp
      have "saved = None"
        using save_blog_post_None [of env "title ?bc" "content ?bc" ?T "tags ?bc"
           "Some (word_count ?bc)" "meta_description ?bc" db1] sv r1 assms Inr Some
        by (simp add: step_fails_def)
      with Inr Some l0 sv r2 show ?thesis
        by (auto simp: generate_blog_post_topic generate_try_def failure_message_def
              split: prod.splits)
    qed
  qed
qed

lemma generate_blog_post_succeeds:
  assumes "\<not> step_fails env custom_topic db"
  shows "\<exists>p. fst (generate_blog_post env custom_topic db) = Inr (Some p)"
proof -
  let ?T = "topic_of env custom_topic"
  obtain l0 db1 where l0: "log_generation env ?T ''in_progress'' None None db = (l0, db1)"
    by (cases "log_generation env ?T ''in_progress'' None None db") simp
  have r1: "reachable env db1 = reachable env db"
    using log_generation_reachable [of env ?T "''in_progress''" None None db] l0 by simp
  from assms obtain result where k: "kickoff env ?T = Inr (Some result)"
    and ok: "reachable env db" "\<not> post_create_raises env"
    by (auto simp: step_fails_def split: sum.splits option.splits)
  let ?bc = "extract_blog_components (extractor_raises env) result"
  obtain saved db2 where sv: "save_blog_post env (title ?bc) (content ?bc) ?T (tags ?bc)
       (Some (word_count ?bc)) (meta_description ?bc) None db1 = (saved, db2)"
    by (cases "save_blog_post env (title ?bc) (content ?bc) ?T (tags ?bc)
       (Some (word_count ?bc)) (meta_description ?bc) None db1") simp
  have "saved \<noteq> None"
    using save_blog_post_None [of env "title ?bc" "content ?bc" ?T "tags ?bc"
       "Some (word_count ?bc)" "meta_description ?bc" db1] sv r1 ok by simp
  then obtain p where "saved = Some p" by auto
  with k l0 sv show ?thesis
    by (auto simp: generate_blog_post_topic generate_try_def split: prod.splits)
qed

text \<open>
  Claim C4 says that whenever a step of \<open>generate_blog_post\<close> fails, the log record of
  the attempt is set to \<open>failed\<close> with an error message and the function returns
  \<open>None\<close> without raising.  \<open>log_generation\<close> swallows its own failures: with a database
  that cannot be reached the post is not saved, the run returns \<open>None\<close>, and no log record
  is written at all.
\<close>

theorem no_failed_record_when_db_down:
  "fst (generate_blog_post db_down_env (Some ''Edge AI'') empty_db) = Inr None \<and>
   logs (snd (generate_blog_post db_down_env (Some ''Edge AI'') empty_db)) = []"
  by code_simp

text \<open>
  Claim C4 as amended.  \<open>generate_blog_post\<close> never raises, and neither does the job the
  timer runs; it returns \<open>None\<close> exactly when a step fails (the pipeline raises or
  returns nothing, or the post is not saved); and then, provided the write of the log
  record itself succeeds, the newest log record is one for the topic of the run with
  status \<open>failed\<close> and the error message of the failure.
\<close>

theorem orchestrator_failure:
  "(\<exists>r. fst (generate_blog_post env custom_topic db) = Inr r) \<and>
   fst (generate_blog_job env db) = Inr () \<and>
   (fst (generate_blog_post env custom_topic db) = Inr None) = step_fails env custom_topic db \<and>
   (step_fails env custom_topic db \<longrightarrow> log_write_succeeds env db \<longrightarrow>
      logs (snd (generate_blog_post env custom_topic db)) \<noteq> [] \<and>
      last (logs (snd (generate_blog_post env custom_topic db))) =
        \<lparr>log_topic = topic_of env custom_topic, log_status = ''failed'',
         errorMsg = Some (failure_message env custom_topic), blogPostId = None\<rparr>)"
proof (cases "step_fails env custom_topic db")
  case True
  from generate_blog_post_fails [OF True] obtain db1 where
    r: "reachable env db1 = reachable env db" and
    g: "generate_blog_post env custom_topic db =
          (Inr None, snd (log_generation env (topic_of env custom_topic) ''failed''
                       (Some (failure_message env custom_topic)) None db1))"
    by blast
  show ?thesis
    using True g r log_failed_last [of env db1 "topic_of env custom_topic" "failure_message env custom_topic"]
    by (simp add: generate_blog_job_Inr log_write_succeeds_def)
next
  case False
  from generate_blog_post_succeeds [OF False] show ?thesis
    using False by (auto simp: generate_blog_job_Inr)
qed

theorem orchestrator_failure_witness:
  "step_fails crew_down_env None empty_db \<and> log_write_succeeds crew_down_env empty_db \<and>
  fst (generate_blog_post crew_down_env None empty_db) = Inr None \<and>
  last (logs (snd (generate_blog_post crew_down_env None empty_db))) =
        \<lparr>log_topic = ''Large Language Models (LLMs) and their latest developments - in 2025'', log_status = ''failed'',
         errorMsg = Some ''Error generating blog post: rate limit'', blogPostId = None\<rparr>"
proof -
  have a: "step_fails crew_down_env None empty_db" by code_simp
  have b: "log_write_succeeds crew_down_env empty_db" by code_simp
  have c: "topic_of crew_down_env None = ''Large Language Models (LLMs) and their latest developments - in 2025''" by code_simp
  have d: "failure_message crew_down_env None = ''Error generating blog post: rate limit''" by code_simp
  from orchestrator_failure [of crew_down_env None empty_db] a b c d show ?thesis by simp
qed


section \<open>Claims about the output extractor\<close>

subsection \<open>The regex cascade always yields its group\<close>

lemma matches_keeps_group:
  "(pv', s', g') \<in> set (matches f r (pv, s, Some x)) \<Longrightarrow> g' \<noteq> None"
proof (induction r arbitrary: pv s x pv' s' g')
  case (Seq a b)
  from Seq.prems obtain p1 s1 g1 where
    m1: "(p1, s1, g1) \<in> set (matches f a (pv, s, Some x))" and
    m2: "(pv', s', g') \<in> set (matches f b (p1, s1, g1))"
    by auto
  from Seq.IH(1) [OF m1] obtain y where "g1 = Some y" by auto
  with m2 Seq.IH(2) show ?case by blast
qed (auto split: list.splits if_splits)

lemma matches_sets_group:
  "sets_group r \<Longrightarrow> (pv', s', g') \<in> set (matches f r (pv, s, g)) \<Longrightarrow> g' \<noteq> None"
proof (induction r arbitrary: pv s g pv' s' g')
  case (Seq a b)
  from Seq.prems(2) obtain p1 s1 g1 where
    m1: "(p1, s1, g1) \<in> set (matches f a (pv, s, g))" and
    m2: "(pv', s', g') \<in> set (matches f b (p1, s1, g1))"
    by auto
  show ?case
  proof (cases "sets_group a")
    case True
    from Seq.IH(1) [OF True m1] obtain y where "g1 = Some y" by auto
    with m2 matches_keeps_group show ?thesis by blast
  next
    case False
    with Seq.prems(1) have "sets_group b" by simp
    from Seq.IH(2) [OF this m2] show ?thesis .
  qed
next
  case (Alt a b)
  then show ?case by auto
next
  case (Group r)
  then show ?case by auto
qed simp_all

lemma re_search_in_matches:
  "re_search f r pv s = Some m \<Longrightarrow> \<exists>pv' s'. snd m \<in> set (matches f r (pv', s', None))"
proof (induction s arbitrary: pv m)
  case Nil
  then obtain ms where "matches f r (pv, [], None) = snd m # ms"
    by (auto split: list.splits)
  then have "snd m \<in> set (matches f r (pv, [], None))" by simp
  then show ?case by blast
next
  case (Cons c cs)
  show ?case
  proof (cases "matches f r (pv, c # cs, None)")
    case Nil
    with Cons.prems obtain m' where "re_search f r (Some c) cs = Some m'" "snd m = snd m'"
      by (auto split: prod.splits)
    with Cons.IH [of "Some c" m'] show ?thesis by simp
  next
    case (Cons m0 ms)
    with Cons.prems have "snd m = m0" by auto
    with Cons have "snd m \<in> set (matches f r (pv, c # cs, None))" by simp
    then show ?thesis by blast
  qed
qed

lemma re_search_group:
  assumes "sets_group r" and "re_search f r pv s = Some m"
  shows "\<exists>g. group1 m = Some g"
proof -
  from re_search_in_matches [OF assms(2)] obtain pv' s' where
    "snd m \<in> set (matches f r (pv', s', None))" by blast
  then have "(fst (snd m), fst (snd (snd m)), snd (snd (snd m))) \<in> set (matches f r (pv', s', None))"
    by simp
  from matches_sets_group [OF assms(1) this] show ?thesis
    by (simp add: group1_def)
qed

lemma sets_group_patterns:
  "sets_group heading_pattern" "\<forall>p \<in> set title_patterns. sets_group p"
  "\<forall>p \<in> set tags_patterns. sets_group p" "sets_group meta_pattern"
  by (simp_all add: heading_pattern_def title_patterns_def title_pattern_1_def
        title_pattern_2_def tags_patterns_def tags_pattern_1_def tags_pattern_2_def
        tags_pattern_3_def meta_pattern_def cap_line_def)

lemma first_title_total:
  "\<forall>p \<in> set ps. sets_group p \<Longrightarrow> \<exists>t. first_title ps c d = Some t"
proof (induction ps)
  case Nil
  then show ?case by simp
next
  case (Cons p ps)
  show ?case
  proof (cases "re_search fl_mi p None c")
    case None
    with Cons show ?thesis by simp
  next
    case (Some m)
    from Cons.prems have "sets_group p" by simp
    from re_search_group [OF this Some] Some show ?thesis by auto
  qed
qed

lemma first_tags_total:
  "\<forall>p \<in> set ps. sets_group p \<Longrightarrow> \<exists>t. first_tags ps c = Some t"
proof (induction ps)
  case Nil
  then show ?case by simp
next
  case (Cons p ps)
  show ?case
  proof (cases "re_search fl_mi p None c")
    case None
    with Cons show ?thesis by simp
  next
    case (Some m)
    from Cons.prems have "sets_group p" by simp
    from re_search_group [OF this Some] Some show ?thesis by auto
  qed
qed

lemma extract_title_total: "\<exists>t. extract_title c = Some t"
proof (cases "re_search fl_m heading_pattern None c")
  case None
  with first_title_total [OF sets_group_patterns(2)] show ?thesis
    by (simp add: extract_title_def)
next
  case (Some m)
  from re_search_group [OF sets_group_patterns(1) Some] Some show ?thesis
    by (auto simp: extract_title_def)
qed

lemma extract_tags_total: "\<exists>t. extract_tags c = Some t"
  using first_tags_total [OF sets_group_patterns(3), of c]
  by (auto simp: extract_tags_def)

lemma extract_meta_total: "\<exists>t. extract_meta c = Some t"
proof (cases "re_search fl_i meta_pattern None c")
  case None
  then show ?thesis by (simp add: extract_meta_def)
next
  case (Some m)
  from re_search_group [OF sets_group_patterns(4) Some] Some show ?thesis
    by (auto simp: extract_meta_def)
qed

lemma stmt_no_raise [simp]: "stmt no_raise k v = v"
  by (simp add: stmt_def no_raise_def)

lemma extract_try_no_raise:
  "extract_try no_raise crew_output =
     Some \<lparr>title = py_strip_chars [CHR 0x22, CHR 0x27] (the (extract_title (py_strip crew_output))),
           content = ensure_proper_markdown no_raise
                       (remove_meta (the (extract_meta (py_strip crew_output))) (py_strip crew_output)),
           tags = take 7 (the (extract_tags (py_strip crew_output))),
           word_count = count_words (ensure_proper_markdown no_raise
                       (remove_meta (the (extract_meta (py_strip crew_output))) (py_strip crew_output))),
           meta_description = the (extract_meta (py_strip crew_output))\<rparr>"
proof -
  obtain t where t: "extract_title (py_strip crew_output) = Some t"
    using extract_title_total by blast
  obtain g where g: "extract_tags (py_strip crew_output) = Some g"
    using extract_tags_total by blast
  obtain m where m: "extract_meta (py_strip crew_output) = Some m"
    using extract_meta_total by blast
  show ?thesis by (simp add: extract_try_def t g m)
qed

lemma extract_try_raises:
  "k \<le> 8 \<Longrightarrow> raises k \<Longrightarrow> extract_try raises crew_output = None"
proof -
  assume "k \<le> 8" "raises k"
  then have k: "k \<le> 8" by simp
  from k have "k = 0 \<or> k = 1 \<or> k = 2 \<or> k = 3 \<or> k = 4 \<or> k = 5 \<or> k = 6 \<or> k = 7 \<or> k = 8"
    by arith
  with \<open>raises k\<close> have "raises 0 \<or> raises 1 \<or> raises 2 \<or> raises 3 \<or> raises 4 \<or> raises 5 \<or>
      raises 6 \<or> raises 7 \<or> raises 8"
    by auto
  then show ?thesis
    by (auto simp: extract_try_def stmt_def Option.bind_eq_None_conv)
qed

subsection \<open>Deleting characters and counting tokens\<close>

lemma re_search_Atom_None:
  "re_search f (Atom a) pv s = None \<Longrightarrow> filter (atom_ok f a) s = []"
  by (induction s arbitrary: pv) (auto split: if_splits)

lemma re_search_Atom_Some:
  "re_search f (Atom a) pv s = Some m \<Longrightarrow>
     \<exists>c. s = fst m @ c # rest_of m \<and> atom_ok f a c \<and> filter (atom_ok f a) (fst m) = []"
proof (induction s arbitrary: pv m)
  case Nil
  then show ?case by simp
next
  case (Cons c cs)
  show ?case
  proof (cases "atom_ok f a c")
    case True
    with Cons.prems show ?thesis by (auto simp: rest_of_def)
  next
    case False
    with Cons.prems obtain m' where m': "re_search f (Atom a) (Some c) cs = Some m'"
      and m: "m = (c # fst m', snd m')"
      by (auto split: prod.splits)
    from Cons.IH [OF m'] m False show ?thesis by (auto simp: rest_of_def)
  qed
qed

lemma re_sub_Atom_delete:
  "re_sub f (Atom a) [] pv s = filter (\<lambda>c. \<not> atom_ok f a c) s"
proof (induction f "Atom a" "[] :: string" pv s rule: re_sub.induct)
  case (1 f pv s)
  show ?case
  proof (cases "re_search f (Atom a) pv s")
    case None
    from re_search_Atom_None [OF None] have "filter (\<lambda>c. \<not> atom_ok f a c) s = s"
      by (simp add: filter_empty_conv filter_id_conv)
    with None show ?thesis by (subst re_sub.simps) simp
  next
    case (Some m)
    from re_search_Atom_Some [OF Some] obtain c where
      s: "s = fst m @ c # rest_of m" and c: "atom_ok f a c"
      and pre: "filter (atom_ok f a) (fst m) = []"
      by blast
    from s have len: "length (rest_of m) < length s"
      by (metis add_Suc_right length_Cons length_append less_add_Suc2)
    from pre have pre': "filter (\<lambda>c. \<not> atom_ok f a c) (fst m) = fst m"
      by (simp add: filter_empty_conv filter_id_conv)
    have "re_sub f (Atom a) [] pv s = fst m @ re_sub f (Atom a) [] (prev_of m) (rest_of m)"
      using Some len by (subst re_sub.simps) simp
    also have "\<dots> = fst m @ filter (\<lambda>c. \<not> atom_ok f a c) (rest_of m)"
      using "1" [OF Some len] by simp
    also have "\<dots> = filter (\<lambda>c. \<not> atom_ok f a c) (fst m @ c # rest_of m)"
      using pre' c by simp
    finally show ?thesis using s by simp
  qed
qed

lemma length_split_ws:
  "length (split_ws s cur) = token_starts (cur = []) s + (if cur = [] then 0 else 1)"
  by (induction s arbitrary: cur) auto

lemma length_py_split: "length (py_split s) = token_starts True s"
  by (simp add: py_split_def length_split_ws)

lemma count_words_spec: "count_words c = spec_word_count c"
proof -
  have "(\<lambda>x. \<not> atom_ok no_flags (In [One CHR ''#'', One CHR ''*'', One (CHR 0x60), One CHR ''['',
                                   One CHR '']'', One CHR ''('', One CHR '')'']) x)
        = (\<lambda>x. x \<notin> set [CHR ''#'', CHR ''*'', CHR 0x60, CHR ''['', CHR '']'', CHR ''('', CHR '')''])"
    by (auto simp: no_flags_def)
  then show ?thesis
    by (simp add: count_words_def spec_word_count_def re_sub_Atom_delete length_py_split Let_def)
qed

text \<open>
  Claim C9: the word count that \<open>extract_blog_components\<close> returns for a text is the
  number of whitespace-delimited tokens of the normalized content of that text (the
  text stripped, its meta description line removed when one was found, and passed
  through the normalizer) once the characters \<open>#\<close>, \<open>*\<close>, backtick, brackets and
  parentheses are removed; the normalized content is the content returned.  For the
  content \<open># Title\n**bold** text here\<close> the count is 4.
\<close>

theorem word_count_counts_tokens:
  "(\<exists>meta. extract_meta (py_strip crew_output) = Some meta \<and>
      content (extract_blog_components no_raise crew_output) =
        ensure_proper_markdown no_raise (remove_meta meta (py_strip crew_output)) \<and>
      word_count (extract_blog_components no_raise crew_output) =
        spec_word_count
          (ensure_proper_markdown no_raise (remove_meta meta (py_strip crew_output)))) \<and>
   content (extract_blog_components no_raise ''# Title\<newline>**bold** text here'') =
     ''# Title\<newline>**bold** text here'' \<and>
   word_count (extract_blog_components no_raise ''# Title\<newline>**bold** text here'') = 4"
proof -
  obtain meta where m: "extract_meta (py_strip crew_output) = Some meta"
    using extract_meta_total by blast
  have "content (extract_blog_components no_raise crew_output) =
          ensure_proper_markdown no_raise (remove_meta meta (py_strip crew_output)) \<and>
        word_count (extract_blog_components no_raise crew_output) =
          spec_word_count
            (ensure_proper_markdown no_raise (remove_meta meta (py_strip crew_output)))"
    by (simp add: extract_blog_components_def extract_try_no_raise count_words_spec m)
  with m have general: "\<exists>meta. extract_meta (py_strip crew_output) = Some meta \<and>
      content (extract_blog_components no_raise crew_output) =
        ensure_proper_markdown no_raise (remove_meta meta (py_strip crew_output)) \<and>
      word_count (extract_blog_components no_raise crew_output) =
        spec_word_count
          (ensure_proper_markdown no_raise (remove_meta meta (py_strip crew_output)))"
    by blast
  have example:
    "content (extract_blog_components no_raise ''# Title\<newline>**bold** text here'') =
       ''# Title\<newline>**bold** text here'' \<and>
     word_count (extract_blog_components no_raise ''# Title\<newline>**bold** text here'') = 4"
    by code_simp
  from general example show ?thesis by blast
qed

text \<open>
  Claim C5: \<open>extract_blog_components\<close> never raises.  On a string the try block by
  itself always completes; when the run-time raises at any of its statements, or the
  block fails in any other way, the result is the fixed default title and tags around
  the raw text, untouched.
\<close>

theorem extract_never_aborts:
  "(\<exists>r. extract_try no_raise crew_output = Some r) \<and>
   (k \<le> 8 \<longrightarrow> raises k \<longrightarrow> extract_try raises crew_output = None) \<and>
   (extract_try raises crew_output = None \<longrightarrow>
      extract_blog_components raises crew_output =
        \<lparr>title = ''Generated Blog Post on Generative AI'', content = crew_output,
         tags = [''Generative AI'', ''Technology''],
         word_count = length (py_split crew_output), meta_description = None\<rparr>)"
  by (simp add: extract_try_no_raise extract_try_raises extract_blog_components_def
        extract_fallback_def)

theorem extract_never_aborts_witness:
  "raise_at 4 4 \<and> extract_try (raise_at 4) ''  # T\<newline>x y  '' = None \<and>
   extract_blog_components (raise_at 4) ''  # T\<newline>x y  '' =
        \<lparr>title = ''Generated Blog Post on Generative AI'', content = ''  # T\<newline>x y  '',
         tags = [''Generative AI'', ''Technology''],
         word_count = 4, meta_description = None\<rparr>"
proof -
  have a: "raise_at 4 4" by (simp add: raise_at_def)
  have b: "length (py_split ''  # T\<newline>x y  '') = 4" by code_simp
  from extract_never_aborts [of "''  # T\<newline>x y  ''" 4 "raise_at 4"] a b show ?thesis by simp
qed

section \<open>Claims about the markdown normalizer\<close>

lemma split_on_no_sep:
  "sep \<notin> set cur \<Longrightarrow> \<forall>l \<in> set (split_on sep s cur). sep \<notin> set l"
proof (induction s arbitrary: cur)
  case Nil
  then show ?case by simp
next
  case (Cons c s)
  show ?case
  proof (cases "c = sep")
    case True
    with Cons.IH [of "[]"] Cons.prems show ?thesis by simp
  next
    case False
    with Cons.IH [of "c # cur"] Cons.prems show ?thesis by simp
  qed
qed

lemma split_on_nonempty: "split_on sep s cur \<noteq> []"
  by (induction s arbitrary: cur) auto

lemma split_on_append:
  "sep \<notin> set l \<Longrightarrow> split_on sep (l @ rest) cur = split_on sep rest (rev l @ cur)"
  by (induction l arbitrary: cur) auto

lemma split_on_join:
  "ls \<noteq> [] \<Longrightarrow> \<forall>l \<in> set ls. sep \<notin> set l \<Longrightarrow>
     split_on sep (py_join [sep] ls) cur = (rev cur @ hd ls) # tl ls"
proof (induction "[sep]" ls arbitrary: cur rule: py_join.induct)
  case 1
  then show ?case by simp
next
  case (2 x)
  then show ?case using split_on_append [of sep x "[]" cur] by simp
next
  case (3 x y ys)
  have "split_on sep (py_join [sep] (x # y # ys)) cur
          = split_on sep (sep # py_join [sep] (y # ys)) (rev x @ cur)"
    using 3 split_on_append [of sep x "sep # py_join [sep] (y # ys)" cur] by simp
  also have "\<dots> = (rev cur @ x) # split_on sep (py_join [sep] (y # ys)) []"
    by simp
  also have "\<dots> = (rev cur @ x) # y # ys"
    using 3 by simp
  finally show ?case by simp
qed

lemma py_split_sep_join:
  "ls \<noteq> [] \<Longrightarrow> \<forall>l \<in> set ls. sep \<notin> set l \<Longrightarrow> py_split_sep sep (py_join [sep] ls) = ls"
  by (simp add: py_split_sep_def split_on_join)

lemma set_py_strip: "set (py_strip s) \<subseteq> set s"
proof -
  have "set (py_strip s) \<subseteq> set (dropWhile py_isspace s)"
    unfolding py_strip_def using set_dropWhileD by fastforce
  also have "\<dots> \<subseteq> set s" using set_dropWhileD by fastforce
  finally show ?thesis .
qed

lemma py_lower_char_not_newline: "c \<noteq> CHR 0x0A \<Longrightarrow> py_lower_char c \<noteq> CHR 0x0A"
proof
  assume c: "c \<noteq> CHR 0x0A" and eq: "py_lower_char c = CHR 0x0A"
  show False
  proof (cases "py_isupper_char c")
    case True
    with eq have "char_of (of_char c + (32::nat)) = CHR 0x0A" by (simp add: py_lower_char_def)
    then have "of_char (char_of (of_char c + (32::nat)) :: char) = (of_char (CHR 0x0A) :: nat)" by simp
    then have "(of_char c + 32) mod 256 = (10::nat)" by simp
    moreover from True have "(of_char c :: nat) + 32 < 256" "(65::nat) \<le> of_char c"
      by (auto simp: py_isupper_char_def Let_def)
    ultimately show False by simp
  next
    case False
    with eq c show False by (simp add: py_lower_char_def)
  qed
qed

lemma py_upper_char_not_newline: "c \<noteq> CHR 0x0A \<Longrightarrow> py_upper_char c \<noteq> CHR 0x0A"
proof
  let ?n = "of_char c :: nat"
  assume c: "c \<noteq> CHR 0x0A" and eq: "py_upper_char c = CHR 0x0A"
  show False
  proof (cases "(97 \<le> ?n \<and> ?n \<le> 122) \<or> (224 \<le> ?n \<and> ?n \<le> 246) \<or> (248 \<le> ?n \<and> ?n \<le> 254)")
    case True
    with eq have "char_of (?n - 32) = CHR 0x0A" by (simp add: py_upper_char_def Let_def)
    then have "of_char (char_of (?n - 32) :: char) = (of_char (CHR 0x0A) :: nat)" by simp
    then have "(?n - 32) mod 256 = (10::nat)" by simp
    with True show False by auto
  next
    case False
    with eq c show False by (simp add: py_upper_char_def Let_def)
  qed
qed

lemma title_from_no_newline:
  "CHR 0x0A \<notin> set s \<Longrightarrow> CHR 0x0A \<notin> set (title_from b s)"
proof (induction s arbitrary: b)
  case Nil
  then show ?case by simp
next
  case (Cons c cs)
  then have c: "c \<noteq> CHR 0x0A" and cs: "CHR 0x0A \<notin> set cs" by auto
  from c have "py_lower_char c \<noteq> CHR 0x0A" "py_upper_char c \<noteq> CHR 0x0A"
    by (rule py_lower_char_not_newline, rule py_upper_char_not_newline)
  then have "CHR 0x0A \<noteq> py_lower_char c" "CHR 0x0A \<noteq> py_upper_char c" by auto
  with Cons.IH [OF cs] show ?case by simp
qed

lemma process_line_no_newline:
  "CHR 0x0A \<notin> set l \<Longrightarrow> CHR 0x0A \<notin> set (process_line l)"
  using set_py_strip [of l] title_from_no_newline [of "py_strip l" False]
  by (auto simp: process_line_def Let_def py_title_def)

lemma ensure_proper_markdown_no_raise:
  "ensure_proper_markdown no_raise c =
     py_join [CHR 0x0A] (map process_line (py_split_sep (CHR 0x0A) c))"
  by (simp add: ensure_proper_markdown_def ensure_try_def)

lemma ensure_proper_markdown_lines:
  "py_split_sep (CHR 0x0A) (ensure_proper_markdown no_raise c) =
     map process_line (py_split_sep (CHR 0x0A) c)"
proof -
  have ne: "map process_line (py_split_sep (CHR 0x0A) c) \<noteq> []"
    by (simp add: py_split_sep_def split_on_nonempty)
  have "\<forall>l \<in> set (py_split_sep (CHR 0x0A) c). CHR 0x0A \<notin> set l"
    using split_on_no_sep [of "CHR 0x0A" "[]" c] by (simp add: py_split_sep_def)
  then have "\<forall>l \<in> set (map process_line (py_split_sep (CHR 0x0A) c)). CHR 0x0A \<notin> set l"
    by (auto simp: process_line_no_newline)
  from py_split_sep_join [OF ne this] show ?thesis
    by (simp add: ensure_proper_markdown_no_raise)
qed

lemma startswith_hash: "py_startswith s ''# '' \<Longrightarrow> \<not> py_startswith s ''## ''"
  by (cases s; cases "tl s"; cases "tl (tl s)") (auto simp: py_startswith_def)

lemma startswith_hashes: "py_startswith s ''###'' \<Longrightarrow> py_startswith s ''##''"
  by (cases s; cases "tl s"; cases "tl (tl s)") (auto simp: py_startswith_def)

text \<open>
  Claim C8 says that the normalizer keeps blank lines as they are, passes lines that
  start with \<open>#\<close>, \<open>##\<close> or \<open>###\<close> and all other lines through unchanged, and turns a
  short all-uppercase line into a level-2 heading.  The loop strips every line first,
  so an indented line loses its indentation; and a line that starts with \<open>#\<close> without
  a space after it is not taken for a heading: \<open>#OVERVIEW\<close> is an uppercase line and
  becomes \<open>## #Overview\<close>.
\<close>

theorem normalizer_strips_lines:
  "ensure_proper_markdown no_raise ''  indented text'' = ''indented text'' \<and>
   ensure_proper_markdown no_raise ''#OVERVIEW'' = ''## #Overview''"
  by code_simp

text \<open>
  Claim C8 as amended.  The lines of the result are the images of the lines of the
  content, one by one.  Each line is stripped of the whitespace around it first: a line
  that is then empty gives the empty line; a stripped line starting with \<open>#\<close> and a
  space, or with \<open>##\<close>, is kept as stripped; any other stripped line that is all
  uppercase and has five words or fewer becomes \<open>##\<close>, a space and its title-case
  form; every line not of that uppercase kind is kept as stripped.  So \<open>OVERVIEW\<close>
  becomes \<open>## Overview\<close> and \<open>## Something\<close> stays.
\<close>

theorem normalizer_lines:
  "py_split_sep (CHR 0x0A) (ensure_proper_markdown no_raise content0) =
     map process_line (py_split_sep (CHR 0x0A) content0) \<and>
   (py_strip b = [] \<longrightarrow> process_line b = []) \<and>
   (py_startswith (py_strip h) ''# '' \<or> py_startswith (py_strip h) ''##'' \<longrightarrow>
      process_line h = py_strip h) \<and>
   (py_strip u \<noteq> [] \<and> \<not> py_startswith (py_strip u) ''# '' \<and> \<not> py_startswith (py_strip u) ''##'' \<and>
    py_isupper (py_strip u) \<and> length (py_split (py_strip u)) \<le> 5 \<longrightarrow>
      process_line u = ''## '' @ py_title (py_strip u)) \<and>
   (\<not> (py_isupper (py_strip l) \<and> length (py_split (py_strip l)) \<le> 5) \<longrightarrow>
      process_line l = py_strip l) \<and>
   ensure_proper_markdown no_raise ''OVERVIEW'' = ''## Overview'' \<and>
   ensure_proper_markdown no_raise ''## Something'' = ''## Something''"
proof -
  have ex1: "ensure_proper_markdown no_raise ''OVERVIEW'' = ''## Overview''" by code_simp
  have ex2: "ensure_proper_markdown no_raise ''## Something'' = ''## Something''" by code_simp
  have hd: "py_startswith (py_strip h) ''# '' \<or> py_startswith (py_strip h) ''##'' \<Longrightarrow>
      process_line h = py_strip h"
    using startswith_hash [of "py_strip h"]
    by (auto simp: process_line_def Let_def py_startswith_def)
  have up: "py_strip u \<noteq> [] \<and> \<not> py_startswith (py_strip u) ''# '' \<and> \<not> py_startswith (py_strip u) ''##'' \<and>
    py_isupper (py_strip u) \<and> length (py_split (py_strip u)) \<le> 5 \<Longrightarrow>
      process_line u = ''## '' @ py_title (py_strip u)"
    using startswith_hashes [of "py_strip u"]
    by (auto simp: process_line_def Let_def)
  have ot: "\<not> (py_isupper (py_strip l) \<and> length (py_split (py_strip l)) \<le> 5) \<Longrightarrow>
      process_line l = py_strip l"
    by (auto simp: process_line_def Let_def)
  show ?thesis
    using ensure_proper_markdown_lines [of content0] ex1 ex2 hd up ot
    by (simp add: process_line_def)
qed

theorem normalizer_lines_witness:
  "py_split_sep (CHR 0x0A) (ensure_proper_markdown no_raise ''INTRO\<newline>  text '') =
     [''## Intro'', ''text''] \<and>
   process_line ''   '' = [] \<and>
   process_line '' ## Something'' = ''## Something'' \<and>
   process_line ''KEY TAKEAWAYS '' = ''## Key Takeaways'' \<and>
   process_line ''  Some text.'' = ''Some text.''"
proof -
  have a: "py_strip ''   '' = []" by code_simp
  have b: "py_strip '' ## Something'' = ''## Something''" by code_simp
  have b': "py_startswith ''## Something'' ''##''" by code_simp
  have c: "py_strip ''KEY TAKEAWAYS '' = ''KEY TAKEAWAYS''" by code_simp
  have c': "\<not> py_startswith ''KEY TAKEAWAYS'' ''# ''" "\<not> py_startswith ''KEY TAKEAWAYS'' ''##''"
    "py_isupper ''KEY TAKEAWAYS''" "length (py_split ''KEY TAKEAWAYS'') \<le> 5"
    "py_title ''KEY TAKEAWAYS'' = ''Key Takeaways''"
    by code_simp+
  have d: "py_strip ''  Some text.'' = ''Some text.''" by code_simp
  have d': "\<not> py_isupper ''Some text.''" by code_simp
  have e: "map process_line (py_split_sep (CHR 0x0A) ''INTRO\<newline>  text '') = [''## Intro'', ''text'']"
    by code_simp
  from normalizer_lines [of "''INTRO\<newline>  text ''" "''   ''" "'' ## Something''" "''KEY TAKEAWAYS ''" "''  Some text.''"]
    a b b' c c' d d' e
  show ?thesis by simp
qed


section \<open>The example of the specification for the extractor\<close>

subsection \<open>Stripping around a text, and searching past what cannot match\<close>

lemma dropWhile_append_keep:
  "ys \<noteq> [] \<Longrightarrow> \<not> P (hd ys) \<Longrightarrow> dropWhile P (xs @ ys) = dropWhile P xs @ ys"
  by (induction xs) (cases ys; simp)+

lemma py_strip_middle:
  assumes "m \<noteq> []" "\<not> py_isspace (hd m)" "\<not> py_isspace (last m)"
  shows "py_strip (pre @ m @ post) =
           dropWhile py_isspace pre @ m @ rev (dropWhile py_isspace (rev post))"
proof -
  have "dropWhile py_isspace (pre @ (m @ post)) = dropWhile py_isspace pre @ m @ post"
    using assms by (intro dropWhile_append_keep) simp_all
  moreover have "dropWhile py_isspace (rev post @ (rev m @ rev (dropWhile py_isspace pre)))
                   = dropWhile py_isspace (rev post) @ rev m @ rev (dropWhile py_isspace pre)"
    using assms by (intro dropWhile_append_keep) (simp_all add: hd_rev)
  ultimately show ?thesis by (simp add: py_strip_def)
qed

lemma last_dropWhile:
  "dropWhile P xs \<noteq> [] \<Longrightarrow> last (dropWhile P xs) = last xs"
  by (metis last_appendR takeWhile_dropWhile_id)

lemma hd_strip_right:
  "rev (dropWhile P (rev xs)) \<noteq> [] \<Longrightarrow> hd (rev (dropWhile P (rev xs))) = hd xs"
proof -
  assume ne: "rev (dropWhile P (rev xs)) \<noteq> []"
  have "rev xs = takeWhile P (rev xs) @ dropWhile P (rev xs)" by simp
  then have "xs = rev (dropWhile P (rev xs)) @ rev (takeWhile P (rev xs))"
    by (metis rev_append rev_rev_ident)
  with ne show ?thesis by (metis hd_append2)
qed

lemma heading_no_match:
  "\<not> ((pv = None \<or> pv = Some (CHR 0x0A)) \<and> c = CHR ''#'' \<and>
      (case cs of [] \<Rightarrow> True | d # ds \<Rightarrow> py_isspace d)) \<Longrightarrow>
   matches fl_m heading_pattern (pv, c # cs, None) = []"
  by (auto simp: heading_pattern_def cap_line_def line_end_def fl_m_def split: list.splits)

lemma heading_skip:
  "\<not> has_heading (pv = None \<or> pv = Some (CHR 0x0A)) xs \<Longrightarrow>
   (xs \<noteq> [] \<Longrightarrow> last xs = CHR 0x0A) \<Longrightarrow>
   map_option snd (re_search fl_m heading_pattern pv (xs @ ys)) =
     map_option snd (re_search fl_m heading_pattern (if xs = [] then pv else Some (last xs)) ys)"
proof (induction xs arbitrary: pv)
  case Nil
  then show ?case by simp
next
  case (Cons x xs)
  show ?case
  proof (cases xs)
    case Nil
    with Cons.prems have x: "x = CHR 0x0A" by simp
    then have "matches fl_m heading_pattern (pv, x # ys, None) = []"
      by (intro heading_no_match) simp
    with Nil show ?thesis
      by (simp add: option.map_comp comp_def case_prod_beta)
  next
    case (Cons d ds)
    with Cons.prems have a: "\<not> ((pv = None \<or> pv = Some (CHR 0x0A)) \<and> x = CHR ''#'' \<and> py_isspace d)"
      and b: "\<not> has_heading (x = CHR 0x0A) xs" and l: "last xs = CHR 0x0A"
      by auto
    from a Cons have "matches fl_m heading_pattern (pv, x # xs @ ys, None) = []"
      by (intro heading_no_match) auto
    then have "map_option snd (re_search fl_m heading_pattern pv ((x # xs) @ ys)) =
                 map_option snd (re_search fl_m heading_pattern (Some x) (xs @ ys))"
      by (simp add: option.map_comp comp_def case_prod_beta)
    also have "\<dots> = map_option snd (re_search fl_m heading_pattern
                         (if xs = [] then Some x else Some (last xs)) ys)"
      using Cons.IH [of "Some x"] b l by simp
    finally show ?thesis using Cons by simp
  qed
qed

lemma heading_found:
  "pv = None \<or> pv = Some (CHR 0x0A) \<Longrightarrow>
   re_search fl_m heading_pattern pv (''# My Title\<newline>'' @ rest) =
     Some ([], (Some (CHR 0x0A), rest, Some ''My Title''))"
  by (auto simp: heading_pattern_def cap_line_def line_end_def fl_m_def py_isspace_def)

lemma lower_marker_chars:
  "py_lower_char CHR ''*'' = CHR ''*''" "py_lower_char CHR ''T'' = CHR ''t''"
  "py_lower_char CHR ''a'' = CHR ''a''" "py_lower_char CHR ''g'' = CHR ''g''"
  "py_lower_char CHR ''s'' = CHR ''s''" "py_lower_char CHR '':'' = CHR '':''"
  "py_lower_char (CHR 0x0A) = CHR 0x0A"
  by code_simp+

lemma marker_no_match:
  "\<not> marker_at s \<Longrightarrow> matches fl_mi tags_pattern_1 (pv, s, None) = []"
  by (auto simp: tags_pattern_1_def fl_mi_def marker_at_def lower_marker_chars
        split: list.splits)

lemma marker_at_front:
  assumes "marker_at (xs @ ys)" "xs \<noteq> []" "last xs = CHR 0x0A"
  shows "marker_at xs"
proof (cases "9 \<le> length xs")
  case True
  with assms(1) show ?thesis by (simp add: marker_at_def)
next
  case False
  then have "set xs \<subseteq> set (take 9 (xs @ ys))" by auto
  with assms(2,3) have "CHR 0x0A \<in> set (take 9 (xs @ ys))"
    using last_in_set by fastforce
  then have "py_lower_char (CHR 0x0A) \<in> set (map py_lower_char (take 9 (xs @ ys)))"
    by (simp only: set_map image_eqI)
  with assms(1) have "CHR 0x0A \<in> set ''**tags:**''"
    by (simp only: marker_at_def lower_marker_chars)
  then show ?thesis by simp
qed

lemma marker_skip:
  "\<not> has_marker xs \<Longrightarrow> (xs \<noteq> [] \<Longrightarrow> last xs = CHR 0x0A) \<Longrightarrow>
   map_option snd (re_search fl_mi tags_pattern_1 pv (xs @ ys)) =
     map_option snd (re_search fl_mi tags_pattern_1 (if xs = [] then pv else Some (last xs)) ys)"
proof (induction xs arbitrary: pv)
  case Nil
  then show ?case by simp
next
  case (Cons x xs)
  from Cons.prems have nm: "\<not> marker_at (x # xs)" and nh: "\<not> has_marker xs"
    and l: "last (x # xs) = CHR 0x0A" by auto
  have "\<not> marker_at ((x # xs) @ ys)"
    using marker_at_front [of "x # xs" ys] nm l by auto
  then have "matches fl_mi tags_pattern_1 (pv, x # xs @ ys, None) = []"
    using marker_no_match [of "x # xs @ ys" pv] by simp
  then have "map_option snd (re_search fl_mi tags_pattern_1 pv ((x # xs) @ ys)) =
               map_option snd (re_search fl_mi tags_pattern_1 (Some x) (xs @ ys))"
    by (simp add: option.map_comp comp_def case_prod_beta)
  also have "\<dots> = map_option snd (re_search fl_mi tags_pattern_1
                       (if xs = [] then Some x else Some (last xs)) ys)"
    using Cons.IH [of "Some x"] nh l by (cases xs) auto
  finally show ?case by simp
qed

lemma has_marker_append: "has_marker ys \<Longrightarrow> has_marker (xs @ ys)"
  by (induction xs) auto

lemma tags_line_found:
  "post = [] \<or> hd post = CHR 0x0A \<Longrightarrow>
   \<exists>m. re_search fl_mi tags_pattern_1 (Some (CHR 0x0A)) (''**Tags:** a, b, c'' @ post) = Some m \<and>
       group1 m = Some ''a, b, c''"
  by (cases post)
     (auto simp: tags_pattern_1_def cap_line_def line_end_def fl_mi_def py_isspace_def
        lower_marker_chars py_lower_char_def py_isupper_char_def group1_def)

lemma search_snd:
  "map_option snd (re_search f r pv s) = map_option snd (re_search f r pv' s') \<Longrightarrow>
   re_search f r pv' s' = Some m' \<Longrightarrow>
   \<exists>m. re_search f r pv s = Some m \<and> group1 m = group1 m'"
  by (cases "re_search f r pv s") (auto simp: group1_def)


text \<open>
  Claim C1 says that a text with the heading line \<open># My Title\<close> and later the line
  \<open>**Tags:** a, b, c\<close> gives the title \<open>My Title\<close> and the tags \<open>a\<close>, \<open>b\<close>, \<open>c\<close>.  The
  tag rule discards tokens of one character, so none of the three is kept.
\<close>

theorem single_character_tags_dropped:
  "tags (extract_blog_components no_raise spec_example) \<noteq> [''a'', ''b'', ''c'']"
  by code_simp

text \<open>
  Claim C1 as amended: the title is \<open>My Title\<close> and the tags are the five default tags,
  the single-character tokens being discarded.  This holds for every text that has the
  line \<open># My Title\<close> as its first heading line (no earlier line of the stripped text
  starts with \<open>#\<close> and whitespace) and later the line \<open>**Tags:** a, b, c\<close> as the first
  place where the marker \<open>**Tags:**\<close> occurs, whatever else the text holds before,
  between and after the two lines.
\<close>

theorem heading_and_tags_example:
  assumes pre: "pre = [] \<or> last pre = CHR 0x0A"
    and no_heading: "\<not> has_heading True (dropWhile py_isspace pre)"
    and body: "body = [] \<or> last body = CHR 0x0A"
    and no_marker: "\<not> has_marker (pre @ ''# My Title\<newline>'' @ body)"
    and post: "post = [] \<or> hd post = CHR 0x0A"
  shows "title (extract_blog_components no_raise
                  (pre @ ''# My Title\<newline>'' @ body @ ''**Tags:** a, b, c'' @ post)) =
           ''My Title'' \<and>
         tags (extract_blog_components no_raise
                  (pre @ ''# My Title\<newline>'' @ body @ ''**Tags:** a, b, c'' @ post)) =
           [''Generative AI'', ''Artificial Intelligence'', ''Technology'',
            ''Machine Learning'', ''Innovation'']"
proof -
  let ?H = "''# My Title\<newline>''" and ?T = "''**Tags:** a, b, c''"
  let ?pre = "dropWhile py_isspace pre"
  let ?post = "rev (dropWhile py_isspace (rev post))"
  let ?c = "?pre @ ?H @ body @ ?T @ ?post"
  have "py_strip (pre @ (?H @ body @ ?T) @ post) = ?pre @ (?H @ body @ ?T) @ ?post"
    by (rule py_strip_middle) (simp_all add: py_isspace_def)
  then have strip: "py_strip (pre @ ?H @ body @ ?T @ post) = ?c" by simp
  have pre': "?pre \<noteq> [] \<Longrightarrow> last ?pre = CHR 0x0A"
    using pre last_dropWhile [of py_isspace pre] by auto
  have post': "?post = [] \<or> hd ?post = CHR 0x0A"
  proof (cases "?post = []")
    case True
    then show ?thesis by simp
  next
    case False
    then have "hd ?post = hd post" by (rule hd_strip_right)
    moreover from False have "post \<noteq> []" by auto
    ultimately show ?thesis using post by simp
  qed
  \<comment> \<open>the title\<close>
  have "map_option snd (re_search fl_m heading_pattern None (?pre @ (?H @ body @ ?T @ ?post))) =
        map_option snd (re_search fl_m heading_pattern
          (if ?pre = [] then None else Some (last ?pre)) (?H @ body @ ?T @ ?post))"
    using no_heading pre' by (intro heading_skip) simp_all
  moreover have "re_search fl_m heading_pattern (if ?pre = [] then None else Some (last ?pre))
          (?H @ (body @ ?T @ ?post)) = Some ([], (Some (CHR 0x0A), body @ ?T @ ?post, Some ''My Title''))"
    using pre' by (intro heading_found) auto
  ultimately obtain m where m: "re_search fl_m heading_pattern None ?c = Some m"
    "group1 m = Some ''My Title''"
    using search_snd [of fl_m heading_pattern None ?c _ "?H @ body @ ?T @ ?post"]
    by (fastforce simp: group1_def)
  have t0: "py_strip ''My Title'' = ''My Title''" by code_simp
  have t1: "py_strip_chars [CHR 0x22, CHR 0x27] ''My Title'' = ''My Title''" by code_simp
  from m have ttl: "extract_title ?c = Some ''My Title''"
    by (simp add: extract_title_def t0)
  \<comment> \<open>the tags\<close>
  let ?xs = "?pre @ ?H @ body"
  have "has_marker ?xs \<Longrightarrow> has_marker (takeWhile py_isspace pre @ ?xs)"
    by (rule has_marker_append)
  then have nm: "\<not> has_marker ?xs"
    using no_marker by (metis append.assoc takeWhile_dropWhile_id)
  have lx: "last ?xs = CHR 0x0A" using body by auto
  have "map_option snd (re_search fl_mi tags_pattern_1 None (?xs @ (?T @ ?post))) =
        map_option snd (re_search fl_mi tags_pattern_1
          (if ?xs = [] then None else Some (last ?xs)) (?T @ ?post))"
    using nm lx by (intro marker_skip) simp_all
  then have sk: "map_option snd (re_search fl_mi tags_pattern_1 None ?c) =
        map_option snd (re_search fl_mi tags_pattern_1 (Some (CHR 0x0A)) (?T @ ?post))"
    using lx by simp
  from tags_line_found [OF post'] obtain m' where
    m': "re_search fl_mi tags_pattern_1 (Some (CHR 0x0A)) (?T @ ?post) = Some m'"
    "group1 m' = Some ''a, b, c''" by blast
  from search_snd [OF sk m'(1)] m'(2) obtain m2 where
    m2: "re_search fl_mi tags_pattern_1 None ?c = Some m2" "group1 m2 = Some ''a, b, c''"
    by auto
  have sp: "split_tags ''a, b, c'' = []" by code_simp
  from m2 have tgs: "extract_tags ?c = Some default_tags"
    by (simp add: extract_tags_def tags_patterns_def sp)
  have dt: "take 7 default_tags = [''Generative AI'', ''Artificial Intelligence'', ''Technology'',
            ''Machine Learning'', ''Innovation'']" by (simp add: default_tags_def)
  show ?thesis
    by (simp only: extract_blog_components_def extract_try_no_raise strip ttl tgs t1 dt
          option.sel option.case blog_components.simps simp_thms)
qed

theorem heading_and_tags_example_witness:
  "\<not> has_heading True (dropWhile py_isspace ''Posted today\<newline>'') \<and>
   \<not> has_marker (''Posted today\<newline>'' @ ''# My Title\<newline>'' @
        ''\<newline>Some **bold** text.\<newline>* an item\<newline>\<newline>'') \<and>
   title (extract_blog_components no_raise long_example) = ''My Title'' \<and>
   tags (extract_blog_components no_raise long_example) =
     [''Generative AI'', ''Artificial Intelligence'', ''Technology'', ''Machine Learning'',
      ''Innovation'']"
proof -
  have a: "''Posted today\<newline>'' = [] \<or> last ''Posted today\<newline>'' = CHR 0x0A" by simp
  have b: "\<not> has_heading True (dropWhile py_isspace ''Posted today\<newline>'')" by code_simp
  have c: "''\<newline>Some **bold** text.\<newline>* an item\<newline>\<newline>'' = [] \<or>
           last ''\<newline>Some **bold** text.\<newline>* an item\<newline>\<newline>'' = CHR 0x0A" by simp
  have d: "\<not> has_marker (''Posted today\<newline>'' @ ''# My Title\<newline>'' @
        ''\<newline>Some **bold** text.\<newline>* an item\<newline>\<newline>'')" by code_simp
  have e: "''\<newline>Meta Description: A short summary.\<newline>'' = [] \<or>
           hd ''\<newline>Meta Description: A short summary.\<newline>'' = CHR 0x0A" by simp
  from heading_and_tags_example [OF a b c d e] b d show ?thesis
    unfolding long_example_def by blast
qed


end
